theory Spec2Isabelle
  imports Main "HOL-Library.Word"
begin

section \<open>The Qt collaborators of \<open>qcorolocalsocket.h\<close>\<close>

text \<open>
  \<open>int\<close> is a 32-bit two's complement integer, \<open>qint64\<close> and the representation of
  \<open>std::chrono::milliseconds\<close> are 64-bit ones. A word is read as a signed value with
  \<open>sint\<close>.
\<close>

type_synonym int32 = "32 word"
type_synonym int64 = "64 word"
type_synonym byte = "8 word"

text \<open>\<open>QLocalSocket::LocalSocketState\<close>, in the order of the enumeration.\<close>

datatype LocalSocketState = UnconnectedState | ConnectingState | ConnectedState | ClosingState

text \<open>\<open>QIODevice::OpenMode\<close> is a set of flags; \<open>ReadWrite\<close> is \<open>ReadOnly | WriteOnly\<close>.\<close>

type_synonym OpenMode = "32 word"

definition ReadWrite :: OpenMode where
  "ReadWrite = 3"

text \<open>
  A connect request as the socket receives it: the server name when the overload passes
  one, and the open mode.
\<close>

datatype request = ConnectRequest "string option" OpenMode

text \<open>
  What the adapters see of a \<open>QLocalSocket\<close>: its state, the bytes waiting in its read
  buffer and the connect requests issued to it so far.
\<close>

record QLocalSocket =
  state :: LocalSocketState
  buffer :: "byte list"
  requests :: "request list"

text \<open>
  A \<open>QPointer\<close> or a plain pointer to the socket is modelled by what it points to:
  \<open>None\<close> is the null pointer, which a \<open>QPointer\<close> also reads as once the socket has been
  destroyed. Every function of the header works on one socket, so the pointee is passed
  along with the object that holds the pointer.
\<close>

datatype fault = NullDereference

text \<open>The signals the adapters subscribe to.\<close>

datatype signal = SIG_stateChanged | SIG_disconnected | SIG_readyRead

text \<open>
  What the reactor and the awaiting coroutine observe of an awaitable, in order:
  subscriptions made and torn down, the timer started and stopped, the operation marked
  completed, and the continuation invoked.
\<close>

datatype action =
  Subscribe signal
  | Unsubscribe signal
  | StartTimer int32
  | StopTimer
  | MarkCompleted
  | Continue

text \<open>What the reactor can deliver while a coroutine is suspended.\<close>

datatype event =
  StateChanged LocalSocketState
  | Disconnected
  | ReadyRead "byte list"
  | TimerFired

text \<open>
  \<open>QObject::connect\<close> on a null sender makes no connection and returns an invalid
  handle; on a live sender the handle names the signal connected.
\<close>

definition QObject_connect :: "QLocalSocket option \<Rightarrow> signal \<Rightarrow> signal option" where
  "QObject_connect sender sig = (case sender of None \<Rightarrow> None | Some _ \<Rightarrow> Some sig)"

text \<open>The part of the trace a connection handle accounts for.\<close>

definition subscribed_trace :: "signal option \<Rightarrow> action list" where
  "subscribed_trace c = (case c of None \<Rightarrow> [] | Some sig \<Rightarrow> [Subscribe sig])"

definition unsubscribed_trace :: "signal option \<Rightarrow> action list" where
  "unsubscribed_trace c = (case c of None \<Rightarrow> [] | Some sig \<Rightarrow> [Unsubscribe sig])"

text \<open>
  The socket as it is once the reactor has a given event to deliver: \<open>stateChanged\<close> is
  emitted after the socket has taken the new state, \<open>readyRead\<close> after the new bytes
  have reached the read buffer.
\<close>

fun observe :: "event \<Rightarrow> QLocalSocket \<Rightarrow> QLocalSocket" where
  "observe (StateChanged s) sock = sock\<lparr>state := s\<rparr>"
| "observe (ReadyRead bs) sock = sock\<lparr>buffer := buffer sock @ bs\<rparr>"
| "observe Disconnected sock = sock"
| "observe TimerFired sock = sock"

section \<open>\<open>WaitOperationBase\<close>\<close>

text \<open>
  The fields of \<open>WaitOperationBase<QLocalSocket>\<close>. \<open>mObj\<close> and \<open>mConn\<close> are the two
  members the header reads and writes; the timeout, the timer, the completion mark and the
  trace belong to the base class.
\<close>

record WaitOperationBase =
  mObj :: "QLocalSocket option"
  mTimeout :: int32
  mConn :: "signal option"
  mTimerActive :: bool
  mCompleted :: bool
  trace :: "action list"

text \<open>
  Modelled from the spec: the constructor of \<open>WaitOperationBase\<close>
  (\<open>impl/waitoperationbase.h\<close> is not among the sources). It binds the watched object to
  the timeout; no subscription exists and no timer runs before suspension.
\<close>

definition WaitOperationBase_init :: "QLocalSocket option \<Rightarrow> int32 \<Rightarrow> WaitOperationBase" where
  "WaitOperationBase_init obj timeout_msecs =
     \<lparr>mObj = obj, mTimeout = timeout_msecs, mConn = None, mTimerActive = False,
      mCompleted = False, trace = []\<rparr>"

text \<open>
  Modelled from the spec: \<open>WaitOperationBase::startTimeoutTimer\<close>
  (\<open>impl/waitoperationbase.h\<close> is not among the sources). It arms the timeout timer;
  a timeout of 0 or a negative one disables the timer.
\<close>

definition startTimeoutTimer :: "WaitOperationBase \<Rightarrow> WaitOperationBase" where
  "startTimeoutTimer op =
     (if 0 < sint (mTimeout op)
      then op\<lparr>mTimerActive := True, trace := trace op @ [StartTimer (mTimeout op)]\<rparr>
      else op)"

text \<open>
  Modelled from the spec: \<open>WaitOperationBase::resume\<close>
  (\<open>impl/waitoperationbase.h\<close> is not among the sources). It tears down every outstanding
  subscription (event and timeout), marks the operation completed exactly once (a second
  call finds the mark and does nothing), then invokes the continuation.
\<close>

definition resume :: "WaitOperationBase \<Rightarrow> WaitOperationBase" where
  "resume op =
     (if mCompleted op then op
      else op\<lparr>mConn := None, mTimerActive := False, mCompleted := True,
              trace := trace op @ unsubscribed_trace (mConn op)
                       @ (if mTimerActive op then [StopTimer] else [])
                       @ [MarkCompleted, Continue]\<rparr>)"

text \<open>How often the continuation has been invoked.\<close>

definition resume_count :: "WaitOperationBase \<Rightarrow> nat" where
  "resume_count op = length (filter (\<lambda>a. a = Continue) (trace op))"

section \<open>\<open>WaitForConnectedOperation\<close>\<close>

text \<open>
  The constructor; its second parameter has the default value \<open>30'000\<close>, taken when the
  argument is left out (\<open>None\<close>).
\<close>

definition WaitForConnectedOperation ::
  "QLocalSocket option \<Rightarrow> int32 option \<Rightarrow> WaitOperationBase" where
  "WaitForConnectedOperation socket timeout_msecs =
     WaitOperationBase_init socket (case timeout_msecs of None \<Rightarrow> 30000 | Some t \<Rightarrow> t)"

definition WaitForConnected_await_ready :: "WaitOperationBase \<Rightarrow> bool" where
  "WaitForConnected_await_ready op =
     (case mObj op of None \<Rightarrow> True | Some sock \<Rightarrow> state sock = ConnectedState)"

text \<open>The lambda connected to \<open>stateChanged\<close>, with its \<open>switch\<close> in the source's order.\<close>

fun WaitForConnected_stateChanged :: "LocalSocketState \<Rightarrow> WaitOperationBase \<Rightarrow> WaitOperationBase" where
  "WaitForConnected_stateChanged UnconnectedState op = op"
| "WaitForConnected_stateChanged ConnectingState op = op"
| "WaitForConnected_stateChanged ClosingState op = resume op"
| "WaitForConnected_stateChanged ConnectedState op = resume op"

definition WaitForConnected_await_suspend :: "WaitOperationBase \<Rightarrow> WaitOperationBase" where
  "WaitForConnected_await_suspend op =
     (let c = QObject_connect (mObj op) SIG_stateChanged
      in startTimeoutTimer (op\<lparr>mConn := c, trace := trace op @ subscribed_trace c\<rparr>))"

section \<open>\<open>WaitForDisconnectedOperation\<close>\<close>

text \<open>The constructor; here the timeout has no default value.\<close>

definition WaitForDisconnectedOperation ::
  "QLocalSocket option \<Rightarrow> int32 \<Rightarrow> WaitOperationBase" where
  "WaitForDisconnectedOperation socket timeout_msecs = WaitOperationBase_init socket timeout_msecs"

definition WaitForDisconnected_await_ready :: "WaitOperationBase \<Rightarrow> bool" where
  "WaitForDisconnected_await_ready op =
     (case mObj op of None \<Rightarrow> True | Some sock \<Rightarrow> state sock = UnconnectedState)"

text \<open>The lambda connected to \<open>disconnected\<close>.\<close>

definition WaitForDisconnected_disconnected :: "WaitOperationBase \<Rightarrow> WaitOperationBase" where
  "WaitForDisconnected_disconnected op = resume op"

definition WaitForDisconnected_await_suspend :: "WaitOperationBase \<Rightarrow> WaitOperationBase" where
  "WaitForDisconnected_await_suspend op =
     (let c = QObject_connect (mObj op) SIG_disconnected
      in startTimeoutTimer (op\<lparr>mConn := c, trace := trace op @ subscribed_trace c\<rparr>))"

section \<open>Awaiting\<close>

text \<open>
  What \<open>co_await\<close> does with an awaitable before the coroutine gives up control: it asks
  \<open>await_ready\<close> and calls \<open>await_suspend\<close> only when the answer is no. The result tells
  whether the coroutine was suspended.
\<close>

definition co_await_WaitForConnected :: "WaitOperationBase \<Rightarrow> bool \<times> WaitOperationBase" where
  "co_await_WaitForConnected op =
     (if WaitForConnected_await_ready op then (False, op)
      else (True, WaitForConnected_await_suspend op))"

definition co_await_WaitForDisconnected :: "WaitOperationBase \<Rightarrow> bool \<times> WaitOperationBase" where
  "co_await_WaitForDisconnected op =
     (if WaitForDisconnected_await_ready op then (False, op)
      else (True, WaitForDisconnected_await_suspend op))"

section \<open>The reactor and a suspended wait operation\<close>

text \<open>
  Whether the reactor still has a subscription of the operation to deliver an event
  through: the signal of \<open>mConn\<close> for the socket's signals, the running timer for the
  timeout.
\<close>

fun subscribed :: "event \<Rightarrow> WaitOperationBase \<Rightarrow> bool" where
  "subscribed (StateChanged _) op = (mConn op = Some SIG_stateChanged)"
| "subscribed Disconnected op = (mConn op = Some SIG_disconnected)"
| "subscribed (ReadyRead _) op = False"
| "subscribed TimerFired op = mTimerActive op"

text \<open>
  Modelled from the spec: the slot \<open>WaitOperationBase\<close> connects to its timer
  (\<open>impl/waitoperationbase.h\<close> is not among the sources). The firing of the timeout is
  itself a resumption event.
\<close>

definition timeout_fired :: "WaitOperationBase \<Rightarrow> WaitOperationBase" where
  "timeout_fired op = resume op"

text \<open>The code each operation runs when an event reaches it.\<close>

fun WaitForConnected_slot :: "event \<Rightarrow> WaitOperationBase \<Rightarrow> WaitOperationBase" where
  "WaitForConnected_slot (StateChanged newState) op = WaitForConnected_stateChanged newState op"
| "WaitForConnected_slot TimerFired op = timeout_fired op"
| "WaitForConnected_slot Disconnected op = op"
| "WaitForConnected_slot (ReadyRead _) op = op"

fun WaitForDisconnected_slot :: "event \<Rightarrow> WaitOperationBase \<Rightarrow> WaitOperationBase" where
  "WaitForDisconnected_slot Disconnected op = WaitForDisconnected_disconnected op"
| "WaitForDisconnected_slot TimerFired op = timeout_fired op"
| "WaitForDisconnected_slot (StateChanged _) op = op"
| "WaitForDisconnected_slot (ReadyRead _) op = op"

text \<open>The watched socket, seen through \<open>mObj\<close>, once the event has happened.\<close>

definition watch :: "event \<Rightarrow> WaitOperationBase \<Rightarrow> WaitOperationBase" where
  "watch e op = op\<lparr>mObj := map_option (observe e) (mObj op)\<rparr>"

text \<open>
  An event reaches the operation in one of two ways. \<open>Emit\<close>: the reactor emits it now
  and runs the slot only through a live subscription. \<open>Late\<close>: the event had fired before
  the subscriptions were torn down and was pending delivery, so its slot runs whatever the
  subscriptions are by now.
\<close>

datatype delivery = Emit event | Late event

fun step :: "(event \<Rightarrow> WaitOperationBase \<Rightarrow> WaitOperationBase) \<Rightarrow> delivery
    \<Rightarrow> WaitOperationBase \<Rightarrow> WaitOperationBase" where
  "step slot (Emit e) op = (if subscribed e (watch e op) then slot e (watch e op) else watch e op)"
| "step slot (Late e) op = slot e op"

fun run :: "(event \<Rightarrow> WaitOperationBase \<Rightarrow> WaitOperationBase) \<Rightarrow> delivery list
    \<Rightarrow> WaitOperationBase \<Rightarrow> WaitOperationBase" where
  "run slot [] op = op"
| "run slot (d # ds) op = run slot ds (step slot d op)"

text \<open>The events on which each operation's slot calls \<open>resume\<close>.\<close>

fun WaitForConnected_trigger :: "event \<Rightarrow> bool" where
  "WaitForConnected_trigger (StateChanged s) = (s = ConnectedState \<or> s = ClosingState)"
| "WaitForConnected_trigger TimerFired = True"
| "WaitForConnected_trigger Disconnected = False"
| "WaitForConnected_trigger (ReadyRead _) = False"

fun WaitForDisconnected_trigger :: "event \<Rightarrow> bool" where
  "WaitForDisconnected_trigger Disconnected = True"
| "WaitForDisconnected_trigger TimerFired = True"
| "WaitForDisconnected_trigger (StateChanged _) = False"
| "WaitForDisconnected_trigger (ReadyRead _) = False"

text \<open>
  A delivery that calls \<open>resume\<close> in an operation suspended on signal \<open>sig\<close> with timeout
  \<open>t\<close>: its event is one of the operation's triggers, and it reaches the slot (a pending
  delivery always does, an emitted timeout only when the timer was armed, an emitted
  signal only when it is the one subscribed to).
\<close>

fun fires :: "(event \<Rightarrow> bool) \<Rightarrow> signal \<Rightarrow> int32 \<Rightarrow> delivery \<Rightarrow> bool" where
  "fires trigger sig t (Late e) = trigger e"
| "fires trigger sig t (Emit TimerFired) = (trigger TimerFired \<and> 0 < sint t)"
| "fires trigger sig t (Emit (StateChanged s)) = (trigger (StateChanged s) \<and> sig = SIG_stateChanged)"
| "fires trigger sig t (Emit Disconnected) = (trigger Disconnected \<and> sig = SIG_disconnected)"
| "fires trigger sig t (Emit (ReadyRead bs)) = False"

text \<open>The two shapes of an operation between \<open>await_suspend\<close> and the end of its life.\<close>

definition suspended :: "signal \<Rightarrow> int32 \<Rightarrow> WaitOperationBase \<Rightarrow> bool" where
  "suspended sig t op \<longleftrightarrow>
     mConn op = Some sig \<and> mTimerActive op = (0 < sint t) \<and> \<not> mCompleted op"

definition torn_down :: "WaitOperationBase \<Rightarrow> bool" where
  "torn_down op \<longleftrightarrow> mConn op = None \<and> \<not> mTimerActive op \<and> mCompleted op"

text \<open>What \<open>resume\<close> adds to the trace of such an operation.\<close>

definition resume_trace :: "signal \<Rightarrow> int32 \<Rightarrow> action list" where
  "resume_trace sig t =
     Unsubscribe sig # (if 0 < sint t then [StopTimer] else []) @ [MarkCompleted, Continue]"

section \<open>\<open>ReadOperation\<close>\<close>

text \<open>
  The fields of the local socket's \<open>ReadOperation\<close>: \<open>mDevice\<close>, the result callback and
  the connection of the base class \<open>QCoroIODevice::ReadOperation\<close>, and \<open>mStateConn\<close>,
  which the header adds. The prefix keeps the names apart from those of the other classes.
\<close>

record ReadOperation =
  rd_mDevice :: "QLocalSocket option"
  rd_mResultCb :: "QLocalSocket \<Rightarrow> byte list \<times> QLocalSocket"
  rd_mConn :: "signal option"
  rd_mStateConn :: "signal option"
  rd_trace :: "action list"

text \<open>
  Modelled from the spec: the constructor of \<open>QCoroIODevice::ReadOperation\<close>, which the
  header inherits (\<open>qcoroiodevice.h\<close> is not among the sources). It keeps the device and the
  requested read; \<open>mStateConn\<close> is default-constructed, an invalid handle.
\<close>

definition ReadOperation_init ::
  "QLocalSocket option \<Rightarrow> (QLocalSocket \<Rightarrow> byte list \<times> QLocalSocket) \<Rightarrow> ReadOperation" where
  "ReadOperation_init device resultCb =
     \<lparr>rd_mDevice = device, rd_mResultCb = resultCb, rd_mConn = None, rd_mStateConn = None,
      rd_trace = []\<rparr>"

text \<open>
  Modelled from the spec: \<open>QCoroIODevice::ReadOperation::await_ready\<close>
  (\<open>qcoroiodevice.h\<close> is not among the sources). Data is already available in the device's
  buffer.
\<close>

definition IODevice_ReadOperation_await_ready :: "ReadOperation \<Rightarrow> bool" where
  "IODevice_ReadOperation_await_ready op =
     (case rd_mDevice op of None \<Rightarrow> False | Some dev \<Rightarrow> buffer dev \<noteq> [])"

text \<open>
  Modelled from the spec: \<open>QCoroIODevice::ReadOperation::await_suspend\<close>
  (\<open>qcoroiodevice.h\<close> is not among the sources). It subscribes to the new-data-available
  signal of the device.
\<close>

definition IODevice_ReadOperation_await_suspend :: "ReadOperation \<Rightarrow> ReadOperation" where
  "IODevice_ReadOperation_await_suspend op =
     (let c = QObject_connect (rd_mDevice op) SIG_readyRead
      in op\<lparr>rd_mConn := c, rd_trace := rd_trace op @ subscribed_trace c\<rparr>)"

text \<open>
  Modelled from the spec: \<open>QCoroIODevice::ReadOperation::finish\<close>
  (\<open>qcoroiodevice.h\<close> is not among the sources). It tears down the subscription of the base
  class, then invokes the continuation.
\<close>

definition IODevice_ReadOperation_finish :: "ReadOperation \<Rightarrow> ReadOperation" where
  "IODevice_ReadOperation_finish op =
     op\<lparr>rd_mConn := None,
        rd_trace := rd_trace op @ unsubscribed_trace (rd_mConn op) @ [Continue]\<rparr>"

text \<open>
  Modelled from the spec: \<open>QCoroIODevice::ReadOperation::await_resume\<close>
  (\<open>qcoroiodevice.h\<close> is not among the sources). On resume the requested read is executed
  against the device and its result is handed back as the awaited value.
\<close>

definition ReadOperation_await_resume :: "ReadOperation \<Rightarrow> fault + byte list \<times> ReadOperation" where
  "ReadOperation_await_resume op =
     (case rd_mDevice op of
        None \<Rightarrow> Inl NullDereference
      | Some dev \<Rightarrow>
          (case rd_mResultCb op dev of
             (bytes, dev') \<Rightarrow> Inr (bytes, op\<lparr>rd_mDevice := Some dev'\<rparr>)))"

text \<open>
  The header's \<open>await_ready\<close>: the base class's answer, or else the state of the socket,
  read through \<open>mDevice\<close> without a null check.
\<close>

definition ReadOperation_await_ready :: "ReadOperation \<Rightarrow> fault + bool" where
  "ReadOperation_await_ready op =
     (if IODevice_ReadOperation_await_ready op then Inr True
      else (case rd_mDevice op of
              None \<Rightarrow> Inl NullDereference
            | Some dev \<Rightarrow> Inr (state dev = UnconnectedState)))"

text \<open>The header's \<open>finish\<close>, which overrides the virtual one of the base class.\<close>

definition ReadOperation_finish :: "ReadOperation \<Rightarrow> ReadOperation" where
  "ReadOperation_finish op =
     IODevice_ReadOperation_finish
       (op\<lparr>rd_mStateConn := None,
           rd_trace := rd_trace op @ unsubscribed_trace (rd_mStateConn op)\<rparr>)"

text \<open>
  The lambda the header connects to \<open>stateChanged\<close>: it ignores the signal's argument and
  reads the state of the socket.
\<close>

definition ReadOperation_stateChanged :: "ReadOperation \<Rightarrow> fault + ReadOperation" where
  "ReadOperation_stateChanged op =
     (case rd_mDevice op of
        None \<Rightarrow> Inl NullDereference
      | Some dev \<Rightarrow> Inr (if state dev = UnconnectedState then ReadOperation_finish op else op))"

text \<open>
  Modelled from the spec: the slot \<open>QCoroIODevice::ReadOperation\<close> connects to the
  new-data-available signal (\<open>qcoroiodevice.h\<close> is not among the sources). New data resumes
  the coroutine and both subscriptions are torn down together: the slot calls the virtual
  \<open>finish\<close>, which for a local socket is the header's.
\<close>

definition ReadOperation_readyRead :: "ReadOperation \<Rightarrow> ReadOperation" where
  "ReadOperation_readyRead op = ReadOperation_finish op"

definition ReadOperation_await_suspend :: "ReadOperation \<Rightarrow> ReadOperation" where
  "ReadOperation_await_suspend op =
     (let op1 = IODevice_ReadOperation_await_suspend op;
          c = QObject_connect (rd_mDevice op1) SIG_stateChanged
      in op1\<lparr>rd_mStateConn := c, rd_trace := rd_trace op1 @ subscribed_trace c\<rparr>)"

text \<open>
  \<open>co_await\<close> on a read: ready means the coroutine goes on at once with the result of
  \<open>await_resume\<close>; otherwise it is suspended.
\<close>

definition co_await_Read :: "ReadOperation \<Rightarrow> fault + bool \<times> ReadOperation" where
  "co_await_Read op =
     (case ReadOperation_await_ready op of
        Inl f \<Rightarrow> Inl f
      | Inr ready \<Rightarrow> Inr (if ready then (False, op) else (True, ReadOperation_await_suspend op)))"

text \<open>The reactor delivering an event to a read operation, through its live subscriptions.\<close>

definition rd_watch :: "event \<Rightarrow> ReadOperation \<Rightarrow> ReadOperation" where
  "rd_watch e op = op\<lparr>rd_mDevice := map_option (observe e) (rd_mDevice op)\<rparr>"

fun rd_step :: "event \<Rightarrow> ReadOperation \<Rightarrow> fault + ReadOperation" where
  "rd_step (ReadyRead bs) op =
     (if rd_mConn (rd_watch (ReadyRead bs) op) = Some SIG_readyRead
      then Inr (ReadOperation_readyRead (rd_watch (ReadyRead bs) op))
      else Inr (rd_watch (ReadyRead bs) op))"
| "rd_step (StateChanged s) op =
     (if rd_mStateConn (rd_watch (StateChanged s) op) = Some SIG_stateChanged
      then ReadOperation_stateChanged (rd_watch (StateChanged s) op)
      else Inr (rd_watch (StateChanged s) op))"
| "rd_step Disconnected op = Inr op"
| "rd_step TimerFired op = Inr op"

fun rd_run :: "event list \<Rightarrow> ReadOperation \<Rightarrow> fault + ReadOperation" where
  "rd_run [] op = Inr op"
| "rd_run (e # es) op = (case rd_step e op of Inl f \<Rightarrow> Inl f | Inr op' \<Rightarrow> rd_run es op')"

text \<open>The events that end a suspended read.\<close>

fun rd_trigger :: "event \<Rightarrow> bool" where
  "rd_trigger (ReadyRead _) = True"
| "rd_trigger (StateChanged s) = (s = UnconnectedState)"
| "rd_trigger Disconnected = False"
| "rd_trigger TimerFired = False"

definition rd_suspended :: "ReadOperation \<Rightarrow> bool" where
  "rd_suspended op \<longleftrightarrow>
     rd_mDevice op \<noteq> None \<and> rd_mConn op = Some SIG_readyRead \<and> rd_mStateConn op = Some SIG_stateChanged"

definition rd_torn_down :: "ReadOperation \<Rightarrow> bool" where
  "rd_torn_down op \<longleftrightarrow> rd_mDevice op \<noteq> None \<and> rd_mConn op = None \<and> rd_mStateConn op = None"

text \<open>What \<open>finish\<close> adds to the trace of a suspended read.\<close>

definition rd_resume_trace :: "action list" where
  "rd_resume_trace = [Unsubscribe SIG_stateChanged, Unsubscribe SIG_readyRead, Continue]"

section \<open>The reads of \<open>QIODevice\<close>\<close>

text \<open>
  \<open>readAll\<close> takes the whole buffer; \<open>read\<close> takes at most \<open>maxSize\<close> bytes, none for a
  negative size; \<open>readLine\<close> takes the bytes up to and including the first line feed, at
  most \<open>maxSize\<close> of them when \<open>maxSize\<close> is positive.
\<close>

definition QIODevice_readAll :: "QLocalSocket \<Rightarrow> byte list \<times> QLocalSocket" where
  "QIODevice_readAll dev = (buffer dev, dev\<lparr>buffer := []\<rparr>)"

definition QIODevice_read :: "int64 \<Rightarrow> QLocalSocket \<Rightarrow> byte list \<times> QLocalSocket" where
  "QIODevice_read maxSize dev =
     (take (nat (sint maxSize)) (buffer dev), dev\<lparr>buffer := drop (nat (sint maxSize)) (buffer dev)\<rparr>)"

definition line_of :: "byte list \<Rightarrow> byte list" where
  "line_of bs = takeWhile (\<lambda>b. b \<noteq> 10) bs @ take 1 (dropWhile (\<lambda>b. b \<noteq> 10) bs)"

definition QIODevice_readLine :: "int64 \<Rightarrow> QLocalSocket \<Rightarrow> byte list \<times> QLocalSocket" where
  "QIODevice_readLine maxSize dev =
     (let line = (if 0 < sint maxSize then take (nat (sint maxSize)) (line_of (buffer dev))
                  else line_of (buffer dev))
      in (line, dev\<lparr>buffer := drop (length line) (buffer dev)\<rparr>))"

section \<open>\<open>QCoroLocalSocket\<close>\<close>

text \<open>The wrapper holds the pointer to the socket, \<open>mDevice\<close> of \<open>QCoroIODevice\<close>.\<close>

record QCoroLocalSocket =
  mDevice :: "QLocalSocket option"

text \<open>
  \<open>waitForConnected(int timeout_msecs = 30'000)\<close> and
  \<open>waitForDisconnected(int timeout_msecs = 30'000)\<close>; \<open>None\<close> is the argument left out.
\<close>

definition waitForConnected :: "QCoroLocalSocket \<Rightarrow> int32 option \<Rightarrow> WaitOperationBase" where
  "waitForConnected this timeout_msecs =
     WaitForConnectedOperation (mDevice this)
       (Some (case timeout_msecs of None \<Rightarrow> 30000 | Some t \<Rightarrow> t))"

definition waitForDisconnected :: "QCoroLocalSocket \<Rightarrow> int32 option \<Rightarrow> WaitOperationBase" where
  "waitForDisconnected this timeout_msecs =
     WaitForDisconnectedOperation (mDevice this)
       (case timeout_msecs of None \<Rightarrow> 30000 | Some t \<Rightarrow> t)"

text \<open>
  \<open>static_cast<int>\<close> of a 64-bit count keeps its low 32 bits, read again as a signed
  value.
\<close>

definition static_cast_int :: "int64 \<Rightarrow> int32" where
  "static_cast_int count = scast count"

text \<open>The overloads that take \<open>std::chrono::milliseconds\<close>, given by its count.\<close>

definition waitForConnected_chrono :: "QCoroLocalSocket \<Rightarrow> int64 \<Rightarrow> WaitOperationBase" where
  "waitForConnected_chrono this timeout = waitForConnected this (Some (static_cast_int timeout))"

definition waitForDisconnected_chrono :: "QCoroLocalSocket \<Rightarrow> int64 \<Rightarrow> WaitOperationBase" where
  "waitForDisconnected_chrono this timeout = waitForDisconnected this (Some (static_cast_int timeout))"

text \<open>
  \<open>QLocalSocket::connectToServer\<close>: the socket takes the request and responds to it before
  the call returns. How it responds (it may stay as it is, be connecting or be connected
  already) is the reactor's business and a parameter here.
\<close>

definition QLocalSocket_connectToServer ::
  "(QLocalSocket \<Rightarrow> QLocalSocket) \<Rightarrow> string option \<Rightarrow> OpenMode \<Rightarrow> QLocalSocket \<Rightarrow> QLocalSocket" where
  "QLocalSocket_connectToServer respond name openMode sock =
     respond (sock\<lparr>requests := requests sock @ [ConnectRequest name openMode]\<rparr>)"

text \<open>
  The two overloads of \<open>connectToServer\<close>; the open mode has the default value
  \<open>QIODevice::ReadWrite\<close>. Both call through \<open>mDevice\<close> without a null check.
\<close>

definition connectToServer ::
  "(QLocalSocket \<Rightarrow> QLocalSocket) \<Rightarrow> QCoroLocalSocket \<Rightarrow> OpenMode option
    \<Rightarrow> fault + QCoroLocalSocket \<times> WaitOperationBase" where
  "connectToServer respond this openMode =
     (case mDevice this of
        None \<Rightarrow> Inl NullDereference
      | Some sock \<Rightarrow>
          (let this' = this\<lparr>mDevice := Some (QLocalSocket_connectToServer respond None
                          (case openMode of None \<Rightarrow> ReadWrite | Some m \<Rightarrow> m) sock)\<rparr>
           in Inr (this', waitForConnected this' None)))"

definition connectToServer_name ::
  "(QLocalSocket \<Rightarrow> QLocalSocket) \<Rightarrow> QCoroLocalSocket \<Rightarrow> string \<Rightarrow> OpenMode option
    \<Rightarrow> fault + QCoroLocalSocket \<times> WaitOperationBase" where
  "connectToServer_name respond this name openMode =
     (case mDevice this of
        None \<Rightarrow> Inl NullDereference
      | Some sock \<Rightarrow>
          (let this' = this\<lparr>mDevice := Some (QLocalSocket_connectToServer respond (Some name)
                          (case openMode of None \<Rightarrow> ReadWrite | Some m \<Rightarrow> m) sock)\<rparr>
           in Inr (this', waitForConnected this' None)))"

text \<open>\<open>readAll\<close>, \<open>read\<close> and \<open>readLine\<close>; the size of \<open>readLine\<close> has the default value 0.\<close>

definition readAll :: "QCoroLocalSocket \<Rightarrow> ReadOperation" where
  "readAll this = ReadOperation_init (mDevice this) QIODevice_readAll"

definition read :: "QCoroLocalSocket \<Rightarrow> int64 \<Rightarrow> ReadOperation" where
  "read this maxSize = ReadOperation_init (mDevice this) (QIODevice_read maxSize)"

definition readLine :: "QCoroLocalSocket \<Rightarrow> int64 option \<Rightarrow> ReadOperation" where
  "readLine this maxSize =
     ReadOperation_init (mDevice this)
       (QIODevice_readLine (case maxSize of None \<Rightarrow> 0 | Some n \<Rightarrow> n))"

section \<open>Properties\<close>

subsection \<open>A suspended operation under any sequence of deliveries\<close>

lemma resume_idem: "resume (resume op) = resume op"
  by (simp add: resume_def)

lemma slot_connected: "WaitForConnected_slot e op = (if WaitForConnected_trigger e then resume op else op)"
  by (cases e; cases "case e of StateChanged s \<Rightarrow> s | _ \<Rightarrow> UnconnectedState")
     (auto simp: timeout_fired_def)

lemma slot_disconnected: "WaitForDisconnected_slot e op = (if WaitForDisconnected_trigger e then resume op else op)"
  by (cases e) (auto simp: timeout_fired_def WaitForDisconnected_disconnected_def)

lemma resume_suspended:
  "suspended sig t op \<Longrightarrow> torn_down (resume op) \<and> trace (resume op) = trace op @ resume_trace sig t"
  by (auto simp: suspended_def torn_down_def resume_def resume_trace_def unsubscribed_trace_def)

lemma resume_torn_down: "torn_down op \<Longrightarrow> resume op = op"
  by (simp add: torn_down_def resume_def)

lemma watch_fields [simp]:
  "mConn (watch e op) = mConn op" "mTimerActive (watch e op) = mTimerActive op"
  "mCompleted (watch e op) = mCompleted op" "trace (watch e op) = trace op"
  "mTimeout (watch e op) = mTimeout op"
  by (simp_all add: watch_def)

lemma suspended_watch [simp]: "suspended sig t (watch e op) = suspended sig t op"
  by (simp add: suspended_def)

lemma torn_down_watch [simp]: "torn_down (watch e op) = torn_down op"
  by (simp add: torn_down_def)

lemma step_torn_down:
  assumes slot: "\<And>e op. slot e op = (if trigger e then resume op else op)"
    and td: "torn_down op"
  shows "torn_down (step slot d op) \<and> trace (step slot d op) = trace op"
proof (cases d)
  case (Emit e)
  have "torn_down (watch e op)" using td by simp
  then show ?thesis using Emit slot td by (simp add: resume_torn_down)
next
  case (Late e)
  then show ?thesis using slot td by (simp add: resume_torn_down)
qed

lemma subscribed_suspended:
  "suspended sig t op \<Longrightarrow> trigger e \<Longrightarrow> subscribed e op = fires trigger sig t (Emit e)"
  by (cases e) (auto simp: suspended_def)

lemma step_fires:
  assumes slot: "\<And>e op. slot e op = (if trigger e then resume op else op)"
    and su: "suspended sig t op" and f: "fires trigger sig t d"
  shows "torn_down (step slot d op) \<and> trace (step slot d op) = trace op @ resume_trace sig t"
proof (cases d)
  case (Emit e)
  have tr: "trigger e" using f Emit by (cases e) auto
  have su': "suspended sig t (watch e op)" using su by simp
  have "subscribed e (watch e op)" using subscribed_suspended [of sig t "watch e op" trigger e]  su' tr f Emit by simp
  then show ?thesis using Emit slot tr resume_suspended [OF su'] by simp
next
  case (Late e)
  then show ?thesis using slot f resume_suspended [OF su] by simp
qed

lemma step_waits:
  assumes slot: "\<And>e op. slot e op = (if trigger e then resume op else op)"
    and su: "suspended sig t op" and f: "\<not> fires trigger sig t d"
  shows "suspended sig t (step slot d op) \<and> trace (step slot d op) = trace op"
proof (cases d)
  case (Emit e)
  have su': "suspended sig t (watch e op)" using su by simp
  show ?thesis
  proof (cases "trigger e")
    case True
    then have "\<not> subscribed e (watch e op)" using subscribed_suspended [of sig t "watch e op" trigger e] su' True f Emit by simp
    then show ?thesis using Emit su by simp
  next
    case False
    then show ?thesis using Emit slot su by simp
  qed
next
  case (Late e)
  then show ?thesis using slot f su by simp
qed

lemma run_torn_down:
  assumes slot: "\<And>e op. slot e op = (if trigger e then resume op else op)"
  shows "torn_down op \<Longrightarrow> torn_down (run slot ds op) \<and> trace (run slot ds op) = trace op"
proof (induction ds arbitrary: op)
  case Nil
  then show ?case by simp
next
  case (Cons d ds)
  from step_torn_down [OF slot Cons.prems, where d = d]
  have "torn_down (step slot d op)" and "trace (step slot d op) = trace op" by simp_all
  with Cons.IH [of "step slot d op"] show ?case by simp
qed

lemma run_suspended:
  assumes slot: "\<And>e op. slot e op = (if trigger e then resume op else op)"
  shows "suspended sig t op \<Longrightarrow>
    (if \<exists>d\<in>set ds. fires trigger sig t d
     then torn_down (run slot ds op) \<and> trace (run slot ds op) = trace op @ resume_trace sig t
     else suspended sig t (run slot ds op) \<and> trace (run slot ds op) = trace op)"
proof (induction ds arbitrary: op)
  case Nil
  then show ?case by simp
next
  case (Cons d ds)
  show ?case
  proof (cases "fires trigger sig t d")
    case True
    from step_fires [OF slot Cons.prems True]
    have td: "torn_down (step slot d op)"
      and tr: "trace (step slot d op) = trace op @ resume_trace sig t" by simp_all
    from run_torn_down [OF slot td, where ds = ds] tr True show ?thesis by simp
  next
    case False
    from step_waits [OF slot Cons.prems False]
    have su: "suspended sig t (step slot d op)"
      and tr: "trace (step slot d op) = trace op" by simp_all
    from Cons.IH [OF su] tr False show ?thesis by simp
  qed
qed

lemma suspend_connected:
  "suspended SIG_stateChanged (mTimeout (WaitForConnectedOperation (Some sock) tm))
     (WaitForConnected_await_suspend (WaitForConnectedOperation (Some sock) tm))"
  by (simp add: suspended_def WaitForConnected_await_suspend_def WaitForConnectedOperation_def
      WaitOperationBase_init_def QObject_connect_def startTimeoutTimer_def Let_def)

lemma suspend_disconnected:
  "suspended SIG_disconnected t
     (WaitForDisconnected_await_suspend (WaitForDisconnectedOperation (Some sock) t))"
  by (simp add: suspended_def WaitForDisconnected_await_suspend_def WaitForDisconnectedOperation_def
      WaitOperationBase_init_def QObject_connect_def startTimeoutTimer_def Let_def)


lemma count_resume_trace: "length (filter (\<lambda>a. a = Continue) (resume_trace sig t)) = 1"
  by (simp add: resume_trace_def)

lemma trace_suspend_connected:
  "trace (WaitForConnected_await_suspend (WaitForConnectedOperation (Some sock) tm))
     = Subscribe SIG_stateChanged #
       (if 0 < sint (mTimeout (WaitForConnectedOperation (Some sock) tm))
        then [StartTimer (mTimeout (WaitForConnectedOperation (Some sock) tm))] else [])"
  by (simp add: WaitForConnected_await_suspend_def WaitForConnectedOperation_def
      WaitOperationBase_init_def QObject_connect_def startTimeoutTimer_def subscribed_trace_def)

lemma trace_suspend_disconnected:
  "trace (WaitForDisconnected_await_suspend (WaitForDisconnectedOperation (Some sock) t))
     = Subscribe SIG_disconnected # (if 0 < sint t then [StartTimer t] else [])"
  by (simp add: WaitForDisconnected_await_suspend_def WaitForDisconnectedOperation_def
      WaitOperationBase_init_def QObject_connect_def startTimeoutTimer_def subscribed_trace_def)

lemma mTimeout_suspend_connected [simp]:
  "mTimeout (WaitForConnected_await_suspend op) = mTimeout op"
  by (simp add: WaitForConnected_await_suspend_def startTimeoutTimer_def Let_def)

lemma run_connected:
  fixes sock tm ds
  defines "op \<equiv> WaitForConnected_await_suspend (WaitForConnectedOperation (Some sock) tm)"
  shows "if \<exists>d\<in>set ds. fires WaitForConnected_trigger SIG_stateChanged (mTimeout op) d
     then torn_down (run WaitForConnected_slot ds op)
        \<and> trace (run WaitForConnected_slot ds op) = trace op @ resume_trace SIG_stateChanged (mTimeout op)
        \<and> resume_count (run WaitForConnected_slot ds op) = 1
     else suspended SIG_stateChanged (mTimeout op) (run WaitForConnected_slot ds op)
        \<and> trace (run WaitForConnected_slot ds op) = trace op
        \<and> resume_count (run WaitForConnected_slot ds op) = 0"
proof -
  have su: "suspended SIG_stateChanged (mTimeout op) op"
    unfolding op_def using suspend_connected [of sock tm] by simp
  have c0: "length (filter (\<lambda>a. a = Continue) (trace op)) = 0"
    unfolding op_def by (simp add: trace_suspend_connected)
  from run_suspended [of WaitForConnected_slot WaitForConnected_trigger, OF slot_connected su, where ds = ds]
  show ?thesis
    using c0 by (auto simp: resume_count_def count_resume_trace split: if_splits)
qed

lemma run_disconnected:
  fixes sock t ds
  defines "op \<equiv> WaitForDisconnected_await_suspend (WaitForDisconnectedOperation (Some sock) t)"
  shows "if \<exists>d\<in>set ds. fires WaitForDisconnected_trigger SIG_disconnected t d
     then torn_down (run WaitForDisconnected_slot ds op)
        \<and> trace (run WaitForDisconnected_slot ds op) = trace op @ resume_trace SIG_disconnected t
        \<and> resume_count (run WaitForDisconnected_slot ds op) = 1
     else suspended SIG_disconnected t (run WaitForDisconnected_slot ds op)
        \<and> trace (run WaitForDisconnected_slot ds op) = trace op
        \<and> resume_count (run WaitForDisconnected_slot ds op) = 0"
proof -
  have su: "suspended SIG_disconnected t op"
    unfolding op_def by (rule suspend_disconnected)
  have c0: "length (filter (\<lambda>a. a = Continue) (trace op)) = 0"
    unfolding op_def by (simp add: trace_suspend_disconnected)
  from run_suspended [of WaitForDisconnected_slot WaitForDisconnected_trigger, OF slot_disconnected su, where ds = ds]
  show ?thesis
    using c0 by (auto simp: resume_count_def count_resume_trace split: if_splits)
qed

lemma fires_state_changes:
  "(\<exists>d\<in>set (map (\<lambda>s. Emit (StateChanged s)) ss). fires WaitForConnected_trigger SIG_stateChanged t d)
     \<longleftrightarrow> (\<exists>s\<in>set ss. s = ConnectedState \<or> s = ClosingState)"
  by (induction ss) auto

lemma trace_await_suspend_connected:
  "trace (WaitForConnected_await_suspend op)
     = trace op @ subscribed_trace (QObject_connect (mObj op) SIG_stateChanged)
       @ (if 0 < sint (mTimeout op) then [StartTimer (mTimeout op)] else [])"
  by (simp add: WaitForConnected_await_suspend_def startTimeoutTimer_def Let_def)

lemma trace_await_suspend_disconnected:
  "trace (WaitForDisconnected_await_suspend op)
     = trace op @ subscribed_trace (QObject_connect (mObj op) SIG_disconnected)
       @ (if 0 < sint (mTimeout op) then [StartTimer (mTimeout op)] else [])"
  by (simp add: WaitForDisconnected_await_suspend_def startTimeoutTimer_def Let_def)

lemma fires_emit_connected:
  "sint t \<le> 0 \<Longrightarrow>
   (\<exists>d\<in>set (map Emit es). fires WaitForConnected_trigger SIG_stateChanged t d)
     \<longleftrightarrow> (\<exists>e\<in>set es. e = StateChanged ConnectedState \<or> e = StateChanged ClosingState)"
proof (induction es)
  case Nil
  then show ?case by simp
next
  case (Cons e es)
  then show ?case by (cases e) auto
qed

lemma fires_emit_disconnected:
  "sint t \<le> 0 \<Longrightarrow>
   (\<exists>d\<in>set (map Emit es). fires WaitForDisconnected_trigger SIG_disconnected t d)
     \<longleftrightarrow> (\<exists>e\<in>set es. e = Disconnected)"
proof (induction es)
  case Nil
  then show ?case by simp
next
  case (Cons e es)
  then show ?case by (cases e) auto
qed

subsection \<open>A suspended read\<close>

lemma rd_watch_fields [simp]:
  "rd_mConn (rd_watch e op) = rd_mConn op" "rd_mStateConn (rd_watch e op) = rd_mStateConn op"
  "rd_trace (rd_watch e op) = rd_trace op" "rd_mResultCb (rd_watch e op) = rd_mResultCb op"
  "rd_mDevice (rd_watch e op) = map_option (observe e) (rd_mDevice op)"
  by (simp_all add: rd_watch_def)

lemma rd_finish_suspended:
  "rd_suspended op \<Longrightarrow>
     rd_torn_down (ReadOperation_finish op)
     \<and> rd_trace (ReadOperation_finish op) = rd_trace op @ rd_resume_trace
     \<and> rd_mDevice (ReadOperation_finish op) = rd_mDevice op
     \<and> rd_mResultCb (ReadOperation_finish op) = rd_mResultCb op"
  by (simp add: rd_suspended_def rd_torn_down_def ReadOperation_finish_def
      IODevice_ReadOperation_finish_def unsubscribed_trace_def rd_resume_trace_def)

lemma rd_step_fires:
  assumes "rd_suspended op" "rd_trigger e"
  shows "\<exists>op'. rd_step e op = Inr op' \<and> rd_torn_down op'
           \<and> rd_trace op' = rd_trace op @ rd_resume_trace
           \<and> rd_mDevice op' = map_option (observe e) (rd_mDevice op)
           \<and> rd_mResultCb op' = rd_mResultCb op"
proof -
  have su: "rd_suspended (rd_watch e op)"
    using assms(1) by (simp add: rd_suspended_def)
  note f = rd_finish_suspended [OF su]
  show ?thesis
  proof (cases e)
    case (StateChanged s)
    with assms(2) have s: "s = UnconnectedState" by simp
    from assms(1) obtain dev where d: "rd_mDevice op = Some dev"
      by (auto simp: rd_suspended_def)
    show ?thesis
      using StateChanged s su f d
      by (simp add: rd_suspended_def ReadOperation_stateChanged_def)
  next
    case (ReadyRead bs)
    then show ?thesis
      using su f by (simp add: rd_suspended_def ReadOperation_readyRead_def)
  qed (use assms(2) in simp_all)
qed

lemma rd_step_waits:
  assumes "rd_suspended op" "\<not> rd_trigger e"
  shows "\<exists>op'. rd_step e op = Inr op' \<and> rd_suspended op' \<and> rd_trace op' = rd_trace op
           \<and> rd_mDevice op' = map_option (observe e) (rd_mDevice op)
           \<and> rd_mResultCb op' = rd_mResultCb op"
proof -
  from assms(1) obtain dev where d: "rd_mDevice op = Some dev"
    by (auto simp: rd_suspended_def)
  show ?thesis
  proof (cases e)
    case (StateChanged s)
    with assms(2) have s: "s \<noteq> UnconnectedState" by simp
    show ?thesis
      using StateChanged s assms(1) d
      by (simp add: rd_suspended_def ReadOperation_stateChanged_def)
  next
    case Disconnected
    then show ?thesis using d assms(1) by simp
  next
    case TimerFired
    then show ?thesis using d assms(1) by simp
  qed (use assms(2) in simp_all)
qed

lemma rd_step_torn_down:
  assumes "rd_torn_down op"
  shows "\<exists>op'. rd_step e op = Inr op' \<and> rd_torn_down op' \<and> rd_trace op' = rd_trace op"
  using assms by (cases e) (auto simp: rd_torn_down_def)

lemma rd_run_torn_down:
  "rd_torn_down op \<Longrightarrow>
     \<exists>op'. rd_run es op = Inr op' \<and> rd_torn_down op' \<and> rd_trace op' = rd_trace op"
proof (induction es arbitrary: op)
  case Nil
  then show ?case by simp
next
  case (Cons e es)
  from rd_step_torn_down [OF Cons.prems, of e]
  obtain op1 where s: "rd_step e op = Inr op1" "rd_torn_down op1" "rd_trace op1 = rd_trace op"
    by blast
  from Cons.IH [OF s(2)] s(1,3) show ?case by simp
qed

lemma rd_run_suspended:
  "rd_suspended op \<Longrightarrow>
     \<exists>op'. rd_run es op = Inr op'
       \<and> (if \<exists>e\<in>set es. rd_trigger e
          then rd_torn_down op' \<and> rd_trace op' = rd_trace op @ rd_resume_trace
          else rd_suspended op' \<and> rd_trace op' = rd_trace op)"
proof (induction es arbitrary: op)
  case Nil
  then show ?case by simp
next
  case (Cons e es)
  show ?case
  proof (cases "rd_trigger e")
    case True
    from rd_step_fires [OF Cons.prems True]
    obtain op1 where s: "rd_step e op = Inr op1" "rd_torn_down op1"
      "rd_trace op1 = rd_trace op @ rd_resume_trace"
      by blast
    from rd_run_torn_down [OF s(2), of es] s(1,3) True show ?thesis by simp
  next
    case False
    from rd_step_waits [OF Cons.prems False]
    obtain op1 where s: "rd_step e op = Inr op1" "rd_suspended op1" "rd_trace op1 = rd_trace op"
      by blast
    from Cons.IH [OF s(2), unfolded s(3)]
    obtain op2 where r: "rd_run es op1 = Inr op2"
      "if \<exists>e\<in>set es. rd_trigger e
       then rd_torn_down op2 \<and> rd_trace op2 = rd_trace op @ rd_resume_trace
       else rd_suspended op2 \<and> rd_trace op2 = rd_trace op"
      by blast
    have "rd_run (e # es) op = Inr op2" using s(1) r(1) by simp
    moreover have "(\<exists>x\<in>set (e # es). rd_trigger x) = (\<exists>x\<in>set es. rd_trigger x)"
      using False by simp
    ultimately show ?thesis using r(2) by (simp only: exI [of _ op2] simp_thms if_True if_False split: if_splits) 
  qed
qed

lemma rd_suspend_fresh:
  "rd_suspended (ReadOperation_await_suspend (ReadOperation_init (Some dev) cb))
   \<and> rd_trace (ReadOperation_await_suspend (ReadOperation_init (Some dev) cb))
       = [Subscribe SIG_readyRead, Subscribe SIG_stateChanged]
   \<and> rd_mDevice (ReadOperation_await_suspend (ReadOperation_init (Some dev) cb)) = Some dev
   \<and> rd_mResultCb (ReadOperation_await_suspend (ReadOperation_init (Some dev) cb)) = cb"
  by (simp add: rd_suspended_def ReadOperation_await_suspend_def
      IODevice_ReadOperation_await_suspend_def ReadOperation_init_def QObject_connect_def
      subscribed_trace_def Let_def)

lemma reads_of_empty_buffer:
  "buffer dev = [] \<Longrightarrow> fst (QIODevice_readAll dev) = []"
  "buffer dev = [] \<Longrightarrow> fst (QIODevice_read n dev) = []"
  "buffer dev = [] \<Longrightarrow> fst (QIODevice_readLine m dev) = []"
  by (simp_all add: QIODevice_readAll_def QIODevice_read_def QIODevice_readLine_def line_of_def)

lemma await_resume_empty:
  assumes "rd_mDevice op = Some dev" "fst (rd_mResultCb op dev) = []"
  shows "\<exists>op'. ReadOperation_await_resume op = Inr ([], op')"
  using assms by (cases "rd_mResultCb op dev") (simp add: ReadOperation_await_resume_def)

lemma rd_trigger_iff:
  "rd_trigger e \<longleftrightarrow> (\<exists>bs. e = ReadyRead bs) \<or> e = StateChanged UnconnectedState"
  by (cases e) auto

lemma rd_unconnected_empty:
  assumes "buffer dev = []" "fst (cb dev) = []"
    "\<And>d. buffer d = [] \<Longrightarrow> fst (cb d) = []"
  shows "\<exists>fin op'. rd_step (StateChanged UnconnectedState)
             (ReadOperation_await_suspend (ReadOperation_init (Some dev) cb)) = Inr fin
           \<and> rd_mConn fin = None \<and> rd_mStateConn fin = None
           \<and> ReadOperation_await_resume fin = Inr ([], op')"
proof -
  let ?susp = "ReadOperation_await_suspend (ReadOperation_init (Some dev) cb)"
  note fr = rd_suspend_fresh [of dev cb]
  from fr have su: "rd_suspended ?susp" by blast
  have tr: "rd_trigger (StateChanged UnconnectedState)" by simp
  from rd_step_fires [OF su tr]
  obtain fin where f: "rd_step (StateChanged UnconnectedState) ?susp = Inr fin"
    "rd_torn_down fin"
    "rd_mDevice fin = map_option (observe (StateChanged UnconnectedState)) (rd_mDevice ?susp)"
    "rd_mResultCb fin = rd_mResultCb ?susp"
    by blast
  have dv: "rd_mDevice fin = Some (dev\<lparr>state := UnconnectedState\<rparr>)"
    using f(3) fr by simp
  have cbf: "rd_mResultCb fin = cb"
    using f(4) fr by simp
  have "buffer (dev\<lparr>state := UnconnectedState\<rparr>) = []"
    using assms(1) by simp
  then have "fst (rd_mResultCb fin (dev\<lparr>state := UnconnectedState\<rparr>)) = []"
    unfolding cbf by (rule assms(3))
  from await_resume_empty [OF dv this]
  obtain op' where "ReadOperation_await_resume fin = Inr ([], op')" by blast
  then show ?thesis
    using f(1,2) by (auto simp: rd_torn_down_def)
qed

subsection \<open>The claims\<close>

text \<open>
  C1: a suspended wait operation (wait for connected, wait for disconnected) invokes its
  continuation exactly once, however many candidate events reach it and in whatever way
  (emitted through a live subscription, or pending from before the teardown): once some
  delivery calls \<open>resume\<close>, the event subscription and the timer are torn down, the
  operation is marked completed once, and then the continuation is invoked; every later
  delivery changes nothing. Without such a delivery the continuation is not invoked.
  Calling \<open>resume\<close> twice is the same as calling it once.
\<close>

theorem C1_resumed_exactly_once:
  "(if \<exists>d\<in>set ds. fires WaitForConnected_trigger SIG_stateChanged
          (mTimeout (WaitForConnectedOperation (Some sock) tm)) d
    then resume_count (run WaitForConnected_slot ds
           (WaitForConnected_await_suspend (WaitForConnectedOperation (Some sock) tm))) = 1
       \<and> torn_down (run WaitForConnected_slot ds
           (WaitForConnected_await_suspend (WaitForConnectedOperation (Some sock) tm)))
       \<and> trace (run WaitForConnected_slot ds
           (WaitForConnected_await_suspend (WaitForConnectedOperation (Some sock) tm)))
         = trace (WaitForConnected_await_suspend (WaitForConnectedOperation (Some sock) tm))
           @ resume_trace SIG_stateChanged (mTimeout (WaitForConnectedOperation (Some sock) tm))
    else resume_count (run WaitForConnected_slot ds
           (WaitForConnected_await_suspend (WaitForConnectedOperation (Some sock) tm))) = 0)
   \<and> (if \<exists>d\<in>set ds. fires WaitForDisconnected_trigger SIG_disconnected t d
      then resume_count (run WaitForDisconnected_slot ds
             (WaitForDisconnected_await_suspend (WaitForDisconnectedOperation (Some sock) t))) = 1
         \<and> torn_down (run WaitForDisconnected_slot ds
             (WaitForDisconnected_await_suspend (WaitForDisconnectedOperation (Some sock) t)))
         \<and> trace (run WaitForDisconnected_slot ds
             (WaitForDisconnected_await_suspend (WaitForDisconnectedOperation (Some sock) t)))
           = trace (WaitForDisconnected_await_suspend (WaitForDisconnectedOperation (Some sock) t))
             @ resume_trace SIG_disconnected t
      else resume_count (run WaitForDisconnected_slot ds
             (WaitForDisconnected_await_suspend (WaitForDisconnectedOperation (Some sock) t))) = 0)
   \<and> resume (resume op) = resume op"
proof -
  note c = run_connected [of ds sock tm]
  note d = run_disconnected [of ds t sock]
  show ?thesis
    using c d by (simp add: resume_idem split: if_splits)
qed

theorem C1_resumed_exactly_once_witness:
  "resume_count (run WaitForConnected_slot
      [Emit (StateChanged ConnectingState), Emit (StateChanged ConnectedState), Emit TimerFired,
       Late TimerFired, Late (StateChanged ClosingState)]
      (WaitForConnected_await_suspend
        (WaitForConnectedOperation (Some \<lparr>state = UnconnectedState, buffer = [], requests = []\<rparr>) None))) = 1
   \<and> resume_count (run WaitForDisconnected_slot
      [Emit (StateChanged ConnectingState), Emit (StateChanged ConnectedState), Emit TimerFired,
       Late TimerFired, Late (StateChanged ClosingState)]
      (WaitForDisconnected_await_suspend
        (WaitForDisconnectedOperation (Some \<lparr>state = UnconnectedState, buffer = [], requests = []\<rparr>) 100))) = 1"
  using C1_resumed_exactly_once
    [of "[Emit (StateChanged ConnectingState), Emit (StateChanged ConnectedState), Emit TimerFired,
          Late TimerFired, Late (StateChanged ClosingState)]"
        "\<lparr>state = UnconnectedState, buffer = [], requests = []\<rparr>" None 100]
  by (simp add: WaitForConnectedOperation_def WaitOperationBase_init_def)

text \<open>
  C2: the \<open>stateChanged\<close> lambda of a wait-for-connected operation leaves the operation as
  it is for \<open>ConnectingState\<close> and \<open>UnconnectedState\<close> and calls \<open>resume\<close> for
  \<open>ConnectedState\<close> and \<open>ClosingState\<close>. So a suspended operation that has seen only
  Connecting and Unconnected notifications has not resumed the coroutine, and the first
  Connected or Closing notification after them resumes it, in the very delivery.
\<close>

theorem C2_connected_state_changes:
  "WaitForConnected_stateChanged ConnectingState op = op
   \<and> WaitForConnected_stateChanged UnconnectedState op = op
   \<and> WaitForConnected_stateChanged ConnectedState op = resume op
   \<and> WaitForConnected_stateChanged ClosingState op = resume op
   \<and> ((\<forall>s\<in>set ss. s = ConnectingState \<or> s = UnconnectedState) \<longrightarrow>
        resume_count (run WaitForConnected_slot (map (\<lambda>s. Emit (StateChanged s)) ss)
          (WaitForConnected_await_suspend (WaitForConnectedOperation (Some sock) tm))) = 0
        \<and> (s' = ConnectedState \<or> s' = ClosingState \<longrightarrow>
             resume_count (run WaitForConnected_slot (map (\<lambda>s. Emit (StateChanged s)) (ss @ [s']))
               (WaitForConnected_await_suspend (WaitForConnectedOperation (Some sock) tm))) = 1))"
proof -
  let ?susp = "WaitForConnected_await_suspend (WaitForConnectedOperation (Some sock) tm)"
  let ?t = "mTimeout ?susp"
  have quiet: "resume_count (run WaitForConnected_slot (map (\<lambda>s. Emit (StateChanged s)) ss) ?susp) = 0"
    if "\<forall>s\<in>set ss. s = ConnectingState \<or> s = UnconnectedState"
  proof -
    from that have "\<not> (\<exists>d\<in>set (map (\<lambda>s. Emit (StateChanged s)) ss).
        fires WaitForConnected_trigger SIG_stateChanged ?t d)"
      unfolding fires_state_changes by auto
    with run_connected [of "map (\<lambda>s. Emit (StateChanged s)) ss" sock tm]
    show ?thesis by simp
  qed
  have loud: "resume_count (run WaitForConnected_slot (map (\<lambda>s. Emit (StateChanged s)) (ss @ [s'])) ?susp) = 1"
    if "s' = ConnectedState \<or> s' = ClosingState"
  proof -
    from that have "\<exists>d\<in>set (map (\<lambda>s. Emit (StateChanged s)) (ss @ [s'])).
        fires WaitForConnected_trigger SIG_stateChanged ?t d"
      unfolding fires_state_changes by auto
    with run_connected [of "map (\<lambda>s. Emit (StateChanged s)) (ss @ [s'])" sock tm]
    show ?thesis by simp
  qed
  show ?thesis
    using quiet loud by simp
qed

theorem C2_connected_state_changes_witness:
  "resume_count (run WaitForConnected_slot
      [Emit (StateChanged ConnectingState), Emit (StateChanged UnconnectedState),
       Emit (StateChanged ConnectingState)]
      (WaitForConnected_await_suspend
        (WaitForConnectedOperation (Some \<lparr>state = UnconnectedState, buffer = [], requests = []\<rparr>) None))) = 0
   \<and> resume_count (run WaitForConnected_slot
      [Emit (StateChanged ConnectingState), Emit (StateChanged UnconnectedState),
       Emit (StateChanged ConnectingState), Emit (StateChanged ClosingState)]
      (WaitForConnected_await_suspend
        (WaitForConnectedOperation (Some \<lparr>state = UnconnectedState, buffer = [], requests = []\<rparr>) None))) = 1"
  using C2_connected_state_changes
    [of _ "[ConnectingState, UnconnectedState, ConnectingState]"
        "\<lparr>state = UnconnectedState, buffer = [], requests = []\<rparr>" None ClosingState]
  by simp

text \<open>
  C3: a read suspended on a live local socket is ended by either of two signals, new data
  or the socket reaching \<open>UnconnectedState\<close>. Under any sequence of events the first such
  signal invokes the continuation, once, after both subscriptions (state change and new
  data) have been torn down; without one the read stays subscribed to both. When the
  socket goes unconnected with an empty buffer, the awaited value of \<open>readAll\<close>,
  \<open>read\<close> and \<open>readLine\<close> is the empty byte array.
\<close>

theorem C3_read_resumed_by_either_signal:
  "(\<exists>fin. rd_run es (ReadOperation_await_suspend (ReadOperation_init (Some dev) cb)) = Inr fin
      \<and> (if \<exists>e\<in>set es. (\<exists>bs. e = ReadyRead bs) \<or> e = StateChanged UnconnectedState
         then rd_mConn fin = None \<and> rd_mStateConn fin = None
            \<and> rd_trace fin = [Subscribe SIG_readyRead, Subscribe SIG_stateChanged,
                               Unsubscribe SIG_stateChanged, Unsubscribe SIG_readyRead, Continue]
         else rd_mConn fin = Some SIG_readyRead \<and> rd_mStateConn fin = Some SIG_stateChanged
            \<and> rd_trace fin = [Subscribe SIG_readyRead, Subscribe SIG_stateChanged]))
   \<and> (mDevice this = Some dev \<and> buffer dev = [] \<longrightarrow>
        (\<exists>fin op'. rd_step (StateChanged UnconnectedState)
             (ReadOperation_await_suspend (readAll this)) = Inr fin
           \<and> rd_mConn fin = None \<and> rd_mStateConn fin = None
           \<and> ReadOperation_await_resume fin = Inr ([], op'))
        \<and> (\<exists>fin op'. rd_step (StateChanged UnconnectedState)
             (ReadOperation_await_suspend (read this n)) = Inr fin
           \<and> rd_mConn fin = None \<and> rd_mStateConn fin = None
           \<and> ReadOperation_await_resume fin = Inr ([], op'))
        \<and> (\<exists>fin op'. rd_step (StateChanged UnconnectedState)
             (ReadOperation_await_suspend (readLine this ml)) = Inr fin
           \<and> rd_mConn fin = None \<and> rd_mStateConn fin = None
           \<and> ReadOperation_await_resume fin = Inr ([], op')))"
proof -
  let ?susp = "ReadOperation_await_suspend (ReadOperation_init (Some dev) cb)"
  note fr = rd_suspend_fresh [of dev cb]
  from fr have su: "rd_suspended ?susp" by blast
  from rd_run_suspended [OF su, of es]
  obtain fin where f: "rd_run es ?susp = Inr fin"
    "if \<exists>e\<in>set es. rd_trigger e
     then rd_torn_down fin \<and> rd_trace fin = rd_trace ?susp @ rd_resume_trace
     else rd_suspended fin \<and> rd_trace fin = rd_trace ?susp"
    by blast
  have first: "\<exists>fin. rd_run es ?susp = Inr fin
      \<and> (if \<exists>e\<in>set es. (\<exists>bs. e = ReadyRead bs) \<or> e = StateChanged UnconnectedState
         then rd_mConn fin = None \<and> rd_mStateConn fin = None
            \<and> rd_trace fin = [Subscribe SIG_readyRead, Subscribe SIG_stateChanged,
                               Unsubscribe SIG_stateChanged, Unsubscribe SIG_readyRead, Continue]
         else rd_mConn fin = Some SIG_readyRead \<and> rd_mStateConn fin = Some SIG_stateChanged
            \<and> rd_trace fin = [Subscribe SIG_readyRead, Subscribe SIG_stateChanged])"
    using f fr unfolding rd_trigger_iff
    by (auto simp: rd_torn_down_def rd_suspended_def rd_resume_trace_def split: if_splits)
  have second: "\<exists>fin op'. rd_step (StateChanged UnconnectedState)
             (ReadOperation_await_suspend (ReadOperation_init (mDevice this) c)) = Inr fin
           \<and> rd_mConn fin = None \<and> rd_mStateConn fin = None
           \<and> ReadOperation_await_resume fin = Inr ([], op')"
    if "mDevice this = Some dev" "buffer dev = []" "\<And>d. buffer d = [] \<Longrightarrow> fst (c d) = []" for c
    unfolding that(1) using that(2) that(3) [OF that(2)] that(3) by (rule rd_unconnected_empty)
  show ?thesis
    using first second [of QIODevice_readAll] second [of "QIODevice_read n"]
      second [of "QIODevice_readLine (case ml of None \<Rightarrow> 0 | Some n \<Rightarrow> n)"]
    by (simp add: reads_of_empty_buffer readAll_def read_def readLine_def)
qed

theorem C3_read_resumed_by_either_signal_witness:
  "(\<exists>fin. rd_run [StateChanged ClosingState, ReadyRead [1, 2], StateChanged UnconnectedState, ReadyRead [3]]
        (ReadOperation_await_suspend (ReadOperation_init
          (Some \<lparr>state = ConnectedState, buffer = [], requests = []\<rparr>) QIODevice_readAll)) = Inr fin
      \<and> rd_mConn fin = None \<and> rd_mStateConn fin = None
      \<and> rd_trace fin = [Subscribe SIG_readyRead, Subscribe SIG_stateChanged,
                         Unsubscribe SIG_stateChanged, Unsubscribe SIG_readyRead, Continue])
   \<and> (\<exists>fin op'. rd_step (StateChanged UnconnectedState)
         (ReadOperation_await_suspend
           (readAll \<lparr>mDevice = Some \<lparr>state = ConnectedState, buffer = [], requests = []\<rparr>\<rparr>)) = Inr fin
       \<and> rd_mConn fin = None \<and> rd_mStateConn fin = None
       \<and> ReadOperation_await_resume fin = Inr ([], op'))"
proof -
  let ?dev = "\<lparr>state = ConnectedState, buffer = [], requests = []\<rparr>"
  let ?es = "[StateChanged ClosingState, ReadyRead [1, 2], StateChanged UnconnectedState, ReadyRead [3]]"
  have cond: "(\<exists>e\<in>set ?es. (\<exists>bs. e = ReadyRead bs) \<or> e = StateChanged UnconnectedState) = True"
    by simp
  have live: "mDevice \<lparr>mDevice = Some ?dev\<rparr> = Some ?dev \<and> buffer ?dev = []"
    by simp
  note T = C3_read_resumed_by_either_signal
    [of ?es ?dev QIODevice_readAll "\<lparr>mDevice = Some ?dev\<rparr>" 0 None]
  note a = T [THEN conjunct1, unfolded cond if_True]
  note b = T [THEN conjunct2, THEN mp, OF live, THEN conjunct1]
  from a b show ?thesis by (rule conjI)
qed

text \<open>
  C4: \<open>await_ready\<close> of a wait-for-connected operation is true exactly when the watched
  socket is null or destroyed, or its state is already \<open>ConnectedState\<close>; awaiting such an
  operation does not suspend, makes no subscription and starts no timer.
\<close>

theorem C4_await_ready_connected:
  "(WaitForConnected_await_ready op
      \<longleftrightarrow> mObj op = None \<or> (\<exists>sock. mObj op = Some sock \<and> state sock = ConnectedState))
   \<and> (WaitForConnected_await_ready op \<longrightarrow> co_await_WaitForConnected op = (False, op))
   \<and> (WaitForConnected_await_ready (WaitForConnectedOperation socket timeout_msecs) \<longrightarrow>
        trace (snd (co_await_WaitForConnected (WaitForConnectedOperation socket timeout_msecs))) = []
        \<and> \<not> mTimerActive (snd (co_await_WaitForConnected (WaitForConnectedOperation socket timeout_msecs)))
        \<and> mConn (snd (co_await_WaitForConnected (WaitForConnectedOperation socket timeout_msecs))) = None)"
  by (auto simp: WaitForConnected_await_ready_def WaitForConnectedOperation_def
      WaitOperationBase_init_def co_await_WaitForConnected_def split: option.splits)

theorem C4_await_ready_connected_witness:
  "WaitForConnected_await_ready
     (WaitForConnectedOperation (Some \<lparr>state = ConnectedState, buffer = [], requests = []\<rparr>) None)
   \<and> co_await_WaitForConnected
       (WaitForConnectedOperation (Some \<lparr>state = ConnectedState, buffer = [], requests = []\<rparr>) None)
     = (False, WaitForConnectedOperation (Some \<lparr>state = ConnectedState, buffer = [], requests = []\<rparr>) None)
   \<and> trace (snd (co_await_WaitForConnected
       (WaitForConnectedOperation (Some \<lparr>state = ConnectedState, buffer = [], requests = []\<rparr>) None))) = []
   \<and> \<not> WaitForConnected_await_ready
       (WaitForConnectedOperation (Some \<lparr>state = ConnectingState, buffer = [], requests = []\<rparr>) None)"
  using C4_await_ready_connected
    [of "WaitForConnectedOperation (Some \<lparr>state = ConnectedState, buffer = [], requests = []\<rparr>) None"
        "Some \<lparr>state = ConnectedState, buffer = [], requests = []\<rparr>" None]
    C4_await_ready_connected
    [of "WaitForConnectedOperation (Some \<lparr>state = ConnectingState, buffer = [], requests = []\<rparr>) None"
        "Some \<lparr>state = ConnectingState, buffer = [], requests = []\<rparr>" None]
  by (simp add: WaitForConnectedOperation_def WaitOperationBase_init_def)

text \<open>
  C5: on a live local socket \<open>await_ready\<close> of a read is true exactly when the buffer of
  the device holds data (the ready check of the base class) or the socket is in
  \<open>UnconnectedState\<close>. Awaiting a read on an unconnected socket with an empty buffer does
  not suspend, and the awaited value of \<open>readAll\<close>, \<open>read\<close> and \<open>readLine\<close> is the
  empty byte array.
\<close>

theorem C5_read_await_ready:
  "(rd_mDevice op = Some dev \<longrightarrow>
      ReadOperation_await_ready op = Inr (buffer dev \<noteq> [] \<or> state dev = UnconnectedState)
      \<and> IODevice_ReadOperation_await_ready op = (buffer dev \<noteq> []))
   \<and> (mDevice this = Some dev \<and> buffer dev = [] \<and> state dev = UnconnectedState \<longrightarrow>
        co_await_Read (readAll this) = Inr (False, readAll this)
        \<and> (\<exists>op'. ReadOperation_await_resume (readAll this) = Inr ([], op'))
        \<and> co_await_Read (read this n) = Inr (False, read this n)
        \<and> (\<exists>op'. ReadOperation_await_resume (read this n) = Inr ([], op'))
        \<and> co_await_Read (readLine this ml) = Inr (False, readLine this ml)
        \<and> (\<exists>op'. ReadOperation_await_resume (readLine this ml) = Inr ([], op')))"
proof -
  have ready: "ReadOperation_await_ready op = Inr (buffer dev \<noteq> [] \<or> state dev = UnconnectedState)
      \<and> IODevice_ReadOperation_await_ready op = (buffer dev \<noteq> [])"
    if "rd_mDevice op = Some dev" for op
    using that by (simp add: ReadOperation_await_ready_def IODevice_ReadOperation_await_ready_def)
  have now: "co_await_Read (ReadOperation_init (mDevice this) c)
        = Inr (False, ReadOperation_init (mDevice this) c)
      \<and> (\<exists>op'. ReadOperation_await_resume (ReadOperation_init (mDevice this) c) = Inr ([], op'))"
    if "mDevice this = Some dev" "buffer dev = []" "state dev = UnconnectedState"
      "\<And>d. buffer d = [] \<Longrightarrow> fst (c d) = []" for c
  proof -
    have d: "rd_mDevice (ReadOperation_init (mDevice this) c) = Some dev"
      and cb: "rd_mResultCb (ReadOperation_init (mDevice this) c) = c"
      using that(1) by (simp_all add: ReadOperation_init_def)
    have e: "fst (rd_mResultCb (ReadOperation_init (mDevice this) c) dev) = []"
      unfolding cb using that(2) by (rule that(4))
    from ready [OF d] that(2,3) have "co_await_Read (ReadOperation_init (mDevice this) c)
        = Inr (False, ReadOperation_init (mDevice this) c)"
      by (simp add: co_await_Read_def)
    with await_resume_empty [OF d e] show ?thesis by blast
  qed
  show ?thesis
    using ready [of op] now [of QIODevice_readAll] now [of "QIODevice_read n"]
      now [of "QIODevice_readLine (case ml of None \<Rightarrow> 0 | Some n \<Rightarrow> n)"]
    by (simp add: reads_of_empty_buffer readAll_def read_def readLine_def)
qed

theorem C5_read_await_ready_witness:
  "ReadOperation_await_ready
      (readAll \<lparr>mDevice = Some \<lparr>state = UnconnectedState, buffer = [], requests = []\<rparr>\<rparr>) = Inr True
   \<and> co_await_Read (readAll \<lparr>mDevice = Some \<lparr>state = UnconnectedState, buffer = [], requests = []\<rparr>\<rparr>)
       = Inr (False, readAll \<lparr>mDevice = Some \<lparr>state = UnconnectedState, buffer = [], requests = []\<rparr>\<rparr>)
   \<and> (\<exists>op'. ReadOperation_await_resume
         (readAll \<lparr>mDevice = Some \<lparr>state = UnconnectedState, buffer = [], requests = []\<rparr>\<rparr>)
       = Inr ([], op'))
   \<and> ReadOperation_await_ready
      (readAll \<lparr>mDevice = Some \<lparr>state = ConnectedState, buffer = [7], requests = []\<rparr>\<rparr>) = Inr True
   \<and> ReadOperation_await_ready
      (readAll \<lparr>mDevice = Some \<lparr>state = ConnectedState, buffer = [], requests = []\<rparr>\<rparr>) = Inr False"
proof -
  let ?gone = "\<lparr>state = UnconnectedState, buffer = [], requests = []\<rparr>"
  let ?data = "\<lparr>state = ConnectedState, buffer = [7], requests = []\<rparr>"
  let ?idle = "\<lparr>state = ConnectedState, buffer = [], requests = []\<rparr>"
  have dev: "rd_mDevice (readAll \<lparr>mDevice = Some d\<rparr>) = Some d" for d
    by (simp add: readAll_def ReadOperation_init_def)
  have live: "mDevice \<lparr>mDevice = Some ?gone\<rparr> = Some ?gone \<and> buffer ?gone = []
      \<and> state ?gone = UnconnectedState"
    by simp
  have v: "(buffer ?gone \<noteq> [] \<or> state ?gone = UnconnectedState) = True"
    "(buffer ?data \<noteq> [] \<or> state ?data = UnconnectedState) = True"
    "(buffer ?idle \<noteq> [] \<or> state ?idle = UnconnectedState) = False"
    by simp_all
  note G = C5_read_await_ready [of "readAll \<lparr>mDevice = Some ?gone\<rparr>" ?gone "\<lparr>mDevice = Some ?gone\<rparr>" 0 None]
  note D = C5_read_await_ready [of "readAll \<lparr>mDevice = Some ?data\<rparr>" ?data "\<lparr>mDevice = Some ?gone\<rparr>" 0 None]
  note I = C5_read_await_ready [of "readAll \<lparr>mDevice = Some ?idle\<rparr>" ?idle "\<lparr>mDevice = Some ?gone\<rparr>" 0 None]
  note g1 = G [THEN conjunct1, THEN mp, OF dev, THEN conjunct1, unfolded v]
  note g2 = G [THEN conjunct2, THEN mp, OF live, THEN conjunct1]
  note g3 = G [THEN conjunct2, THEN mp, OF live, THEN conjunct2, THEN conjunct1]
  note d1 = D [THEN conjunct1, THEN mp, OF dev, THEN conjunct1, unfolded v]
  note i1 = I [THEN conjunct1, THEN mp, OF dev, THEN conjunct1, unfolded v]
  show ?thesis
    using g1 g2 g3 d1 i1 by blast
qed

text \<open>
  C6: in both wait operations \<open>await_suspend\<close> first subscribes to the primary event and
  only then arms the timeout timer. The constructors arm no timer, and awaiting an
  operation whose \<open>await_ready\<close> is true leaves its trace empty; so whenever the timer of
  an awaited operation runs, the coroutine has been suspended and the subscription to the
  primary event is in place.
\<close>

theorem C6_timer_armed_on_suspend:
  "trace (WaitForConnected_await_suspend op)
     = trace op @ subscribed_trace (QObject_connect (mObj op) SIG_stateChanged)
       @ (if 0 < sint (mTimeout op) then [StartTimer (mTimeout op)] else [])
   \<and> trace (WaitForDisconnected_await_suspend op)
     = trace op @ subscribed_trace (QObject_connect (mObj op) SIG_disconnected)
       @ (if 0 < sint (mTimeout op) then [StartTimer (mTimeout op)] else [])
   \<and> \<not> mTimerActive (WaitForConnectedOperation socket tm)
   \<and> \<not> mTimerActive (WaitForDisconnectedOperation socket t)
   \<and> trace (snd (co_await_WaitForConnected (WaitForConnectedOperation socket tm)))
     = (if WaitForConnected_await_ready (WaitForConnectedOperation socket tm) then []
        else Subscribe SIG_stateChanged #
          (if 0 < sint (mTimeout (WaitForConnectedOperation socket tm))
           then [StartTimer (mTimeout (WaitForConnectedOperation socket tm))] else []))
   \<and> trace (snd (co_await_WaitForDisconnected (WaitForDisconnectedOperation socket t)))
     = (if WaitForDisconnected_await_ready (WaitForDisconnectedOperation socket t) then []
        else Subscribe SIG_disconnected # (if 0 < sint t then [StartTimer t] else []))
   \<and> (mTimerActive (snd (co_await_WaitForConnected (WaitForConnectedOperation socket tm))) \<longrightarrow>
        fst (co_await_WaitForConnected (WaitForConnectedOperation socket tm))
        \<and> mConn (snd (co_await_WaitForConnected (WaitForConnectedOperation socket tm)))
            = Some SIG_stateChanged)
   \<and> (mTimerActive (snd (co_await_WaitForDisconnected (WaitForDisconnectedOperation socket t))) \<longrightarrow>
        fst (co_await_WaitForDisconnected (WaitForDisconnectedOperation socket t))
        \<and> mConn (snd (co_await_WaitForDisconnected (WaitForDisconnectedOperation socket t)))
            = Some SIG_disconnected)"
proof -
  have c: "trace (snd (co_await_WaitForConnected (WaitForConnectedOperation socket tm)))
     = (if WaitForConnected_await_ready (WaitForConnectedOperation socket tm) then []
        else Subscribe SIG_stateChanged #
          (if 0 < sint (mTimeout (WaitForConnectedOperation socket tm))
           then [StartTimer (mTimeout (WaitForConnectedOperation socket tm))] else []))"
    by (cases socket)
      (simp_all add: co_await_WaitForConnected_def trace_await_suspend_connected
        WaitForConnected_await_ready_def WaitForConnectedOperation_def WaitOperationBase_init_def
        QObject_connect_def subscribed_trace_def)
  have d: "trace (snd (co_await_WaitForDisconnected (WaitForDisconnectedOperation socket t)))
     = (if WaitForDisconnected_await_ready (WaitForDisconnectedOperation socket t) then []
        else Subscribe SIG_disconnected # (if 0 < sint t then [StartTimer t] else []))"
    by (cases socket)
      (simp_all add: co_await_WaitForDisconnected_def trace_await_suspend_disconnected
        WaitForDisconnected_await_ready_def WaitForDisconnectedOperation_def WaitOperationBase_init_def
        QObject_connect_def subscribed_trace_def)
  have tc: "mTimerActive (snd (co_await_WaitForConnected (WaitForConnectedOperation socket tm))) \<longrightarrow>
        fst (co_await_WaitForConnected (WaitForConnectedOperation socket tm))
        \<and> mConn (snd (co_await_WaitForConnected (WaitForConnectedOperation socket tm)))
            = Some SIG_stateChanged"
    by (cases socket)
      (simp_all add: co_await_WaitForConnected_def WaitForConnected_await_suspend_def
        startTimeoutTimer_def Let_def
        WaitForConnected_await_ready_def WaitForConnectedOperation_def WaitOperationBase_init_def
        QObject_connect_def)
  have td: "mTimerActive (snd (co_await_WaitForDisconnected (WaitForDisconnectedOperation socket t))) \<longrightarrow>
        fst (co_await_WaitForDisconnected (WaitForDisconnectedOperation socket t))
        \<and> mConn (snd (co_await_WaitForDisconnected (WaitForDisconnectedOperation socket t)))
            = Some SIG_disconnected"
    by (cases socket)
      (simp_all add: co_await_WaitForDisconnected_def WaitForDisconnected_await_suspend_def
        startTimeoutTimer_def Let_def
        WaitForDisconnected_await_ready_def WaitForDisconnectedOperation_def WaitOperationBase_init_def
        QObject_connect_def)
  have i: "\<not> mTimerActive (WaitForConnectedOperation socket tm)"
    "\<not> mTimerActive (WaitForDisconnectedOperation socket t)"
    by (simp_all add: WaitForConnectedOperation_def WaitForDisconnectedOperation_def
        WaitOperationBase_init_def)
  show ?thesis
    using trace_await_suspend_connected [of op] trace_await_suspend_disconnected [of op] c d tc td i
    by blast
qed

theorem C6_timer_armed_on_suspend_witness:
  "trace (snd (co_await_WaitForConnected
      (WaitForConnectedOperation (Some \<lparr>state = ConnectingState, buffer = [], requests = []\<rparr>) None)))
     = [Subscribe SIG_stateChanged, StartTimer 30000]
   \<and> mTimerActive (snd (co_await_WaitForConnected
      (WaitForConnectedOperation (Some \<lparr>state = ConnectingState, buffer = [], requests = []\<rparr>) None)))
   \<and> mConn (snd (co_await_WaitForConnected
      (WaitForConnectedOperation (Some \<lparr>state = ConnectingState, buffer = [], requests = []\<rparr>) None)))
       = Some SIG_stateChanged
   \<and> trace (snd (co_await_WaitForDisconnected
      (WaitForDisconnectedOperation (Some \<lparr>state = ConnectedState, buffer = [], requests = []\<rparr>) 250)))
     = [Subscribe SIG_disconnected, StartTimer 250]
   \<and> mConn (snd (co_await_WaitForDisconnected
      (WaitForDisconnectedOperation (Some \<lparr>state = ConnectedState, buffer = [], requests = []\<rparr>) 250)))
       = Some SIG_disconnected"
proof -
  have a: "mTimerActive (snd (co_await_WaitForConnected
      (WaitForConnectedOperation (Some \<lparr>state = ConnectingState, buffer = [], requests = []\<rparr>) None)))"
    by (simp add: co_await_WaitForConnected_def WaitForConnected_await_suspend_def
        startTimeoutTimer_def Let_def WaitForConnected_await_ready_def
        WaitForConnectedOperation_def WaitOperationBase_init_def QObject_connect_def)
  have b: "mTimerActive (snd (co_await_WaitForDisconnected
      (WaitForDisconnectedOperation (Some \<lparr>state = ConnectedState, buffer = [], requests = []\<rparr>) 250)))"
    by (simp add: co_await_WaitForDisconnected_def WaitForDisconnected_await_suspend_def
        startTimeoutTimer_def Let_def WaitForDisconnected_await_ready_def
        WaitForDisconnectedOperation_def WaitOperationBase_init_def QObject_connect_def)
  show ?thesis
    using a b C6_timer_armed_on_suspend
      [of _ "Some \<lparr>state = ConnectingState, buffer = [], requests = []\<rparr>" None 250]
      C6_timer_armed_on_suspend
      [of _ "Some \<lparr>state = ConnectedState, buffer = [], requests = []\<rparr>" None 250]
    by (simp add: WaitForConnected_await_ready_def WaitForDisconnected_await_ready_def
        WaitForConnectedOperation_def WaitForDisconnectedOperation_def WaitOperationBase_init_def)
qed

text \<open>
  C7: the timeout of the wait operations defaults to 30000 milliseconds. A timeout of zero
  or below is accepted like any other: \<open>await_suspend\<close> subscribes to the primary event
  and starts no timer, and the operation then stays suspended, not resumed, under every
  sequence of emitted events (timer events included) without a primary trigger.
\<close>

theorem C7_timeout_default_and_disabled:
  "mTimeout (waitForConnected this None) = 30000
   \<and> mTimeout (waitForDisconnected this None) = 30000
   \<and> mTimeout (WaitForConnectedOperation socket None) = 30000
   \<and> (sint t \<le> 0 \<longrightarrow>
        \<not> mTimerActive (WaitForConnected_await_suspend (waitForConnected \<lparr>mDevice = Some sock\<rparr> (Some t)))
        \<and> trace (WaitForConnected_await_suspend (waitForConnected \<lparr>mDevice = Some sock\<rparr> (Some t)))
            = [Subscribe SIG_stateChanged]
        \<and> \<not> mTimerActive (WaitForDisconnected_await_suspend (waitForDisconnected \<lparr>mDevice = Some sock\<rparr> (Some t)))
        \<and> trace (WaitForDisconnected_await_suspend (waitForDisconnected \<lparr>mDevice = Some sock\<rparr> (Some t)))
            = [Subscribe SIG_disconnected]
        \<and> ((\<forall>e\<in>set es. e \<noteq> StateChanged ConnectedState \<and> e \<noteq> StateChanged ClosingState) \<longrightarrow>
             suspended SIG_stateChanged t (run WaitForConnected_slot (map Emit es)
               (WaitForConnected_await_suspend (waitForConnected \<lparr>mDevice = Some sock\<rparr> (Some t))))
             \<and> resume_count (run WaitForConnected_slot (map Emit es)
               (WaitForConnected_await_suspend (waitForConnected \<lparr>mDevice = Some sock\<rparr> (Some t)))) = 0)
        \<and> ((\<forall>e\<in>set es. e \<noteq> Disconnected) \<longrightarrow>
             suspended SIG_disconnected t (run WaitForDisconnected_slot (map Emit es)
               (WaitForDisconnected_await_suspend (waitForDisconnected \<lparr>mDevice = Some sock\<rparr> (Some t))))
             \<and> resume_count (run WaitForDisconnected_slot (map Emit es)
               (WaitForDisconnected_await_suspend (waitForDisconnected \<lparr>mDevice = Some sock\<rparr> (Some t)))) = 0))"
proof -
  have wc: "waitForConnected \<lparr>mDevice = Some sock\<rparr> (Some t) = WaitForConnectedOperation (Some sock) (Some t)"
    by (simp add: waitForConnected_def)
  have wd: "waitForDisconnected \<lparr>mDevice = Some sock\<rparr> (Some t) = WaitForDisconnectedOperation (Some sock) t"
    by (simp add: waitForDisconnected_def)
  have tt: "mTimeout (WaitForConnectedOperation (Some sock) (Some t)) = t"
    by (simp add: WaitForConnectedOperation_def WaitOperationBase_init_def)
  have defaults: "mTimeout (waitForConnected this None) = 30000"
    "mTimeout (waitForDisconnected this None) = 30000"
    "mTimeout (WaitForConnectedOperation socket None) = 30000"
    by (simp_all add: waitForConnected_def waitForDisconnected_def WaitForConnectedOperation_def
        WaitForDisconnectedOperation_def WaitOperationBase_init_def)
  have off: "\<not> mTimerActive (WaitForConnected_await_suspend (WaitForConnectedOperation (Some sock) (Some t)))"
    "trace (WaitForConnected_await_suspend (WaitForConnectedOperation (Some sock) (Some t)))
       = [Subscribe SIG_stateChanged]"
    "\<not> mTimerActive (WaitForDisconnected_await_suspend (WaitForDisconnectedOperation (Some sock) t))"
    "trace (WaitForDisconnected_await_suspend (WaitForDisconnectedOperation (Some sock) t))
       = [Subscribe SIG_disconnected]"
    if "sint t \<le> 0"
    using that suspend_connected [of sock "Some t"] suspend_disconnected [of t sock]
      trace_suspend_connected [of sock "Some t"] trace_suspend_disconnected [of sock t]
    by (simp_all add: suspended_def tt)
  have waits_c: "suspended SIG_stateChanged t (run WaitForConnected_slot (map Emit es)
               (WaitForConnected_await_suspend (WaitForConnectedOperation (Some sock) (Some t))))
             \<and> resume_count (run WaitForConnected_slot (map Emit es)
               (WaitForConnected_await_suspend (WaitForConnectedOperation (Some sock) (Some t)))) = 0"
    if "sint t \<le> 0" "\<forall>e\<in>set es. e \<noteq> StateChanged ConnectedState \<and> e \<noteq> StateChanged ClosingState"
  proof -
    from that have "\<not> (\<exists>d\<in>set (map Emit es). fires WaitForConnected_trigger SIG_stateChanged t d)"
      unfolding fires_emit_connected [OF that(1)] by blast
    with run_connected [of "map Emit es" sock "Some t"] show ?thesis
      by (simp add: tt)
  qed
  have waits_d: "suspended SIG_disconnected t (run WaitForDisconnected_slot (map Emit es)
               (WaitForDisconnected_await_suspend (WaitForDisconnectedOperation (Some sock) t)))
             \<and> resume_count (run WaitForDisconnected_slot (map Emit es)
               (WaitForDisconnected_await_suspend (WaitForDisconnectedOperation (Some sock) t))) = 0"
    if "sint t \<le> 0" "\<forall>e\<in>set es. e \<noteq> Disconnected"
  proof -
    from that have "\<not> (\<exists>d\<in>set (map Emit es). fires WaitForDisconnected_trigger SIG_disconnected t d)"
      unfolding fires_emit_disconnected [OF that(1)] by blast
    with run_disconnected [of "map Emit es" t sock] show ?thesis
      by simp
  qed
  show ?thesis
    unfolding wc wd using defaults off waits_c waits_d by blast
qed

theorem C7_timeout_default_and_disabled_witness:
  "sint (0 :: int32) \<le> 0
   \<and> trace (WaitForConnected_await_suspend (waitForConnected
        \<lparr>mDevice = Some \<lparr>state = ConnectingState, buffer = [], requests = []\<rparr>\<rparr> (Some 0)))
      = [Subscribe SIG_stateChanged]
   \<and> resume_count (run WaitForConnected_slot
        (map Emit [TimerFired, StateChanged ConnectingState, TimerFired, Disconnected])
        (WaitForConnected_await_suspend (waitForConnected
          \<lparr>mDevice = Some \<lparr>state = ConnectingState, buffer = [], requests = []\<rparr>\<rparr> (Some 0)))) = 0
   \<and> resume_count (run WaitForDisconnected_slot
        (map Emit [TimerFired, StateChanged ConnectingState, TimerFired])
        (WaitForDisconnected_await_suspend (waitForDisconnected
          \<lparr>mDevice = Some \<lparr>state = ConnectingState, buffer = [], requests = []\<rparr>\<rparr> (Some 0)))) = 0"
  using C7_timeout_default_and_disabled
    [of _ _ 0 "\<lparr>state = ConnectingState, buffer = [], requests = []\<rparr>"
        "[TimerFired, StateChanged ConnectingState, TimerFired, Disconnected]"]
    C7_timeout_default_and_disabled
    [of _ _ 0 "\<lparr>state = ConnectingState, buffer = [], requests = []\<rparr>"
        "[TimerFired, StateChanged ConnectingState, TimerFired]"]
  by (simp del: run.simps step.simps)

text \<open>
  C8: on a live socket each overload of \<open>connectToServer\<close> hands the request to the
  socket (server name when given, open mode or its default \<open>ReadWrite\<close>), lets the socket
  respond, and returns what \<open>waitForConnected()\<close> returns for the socket as it is then:
  an awaitable that watches this socket and has made no subscription, started no timer
  and not been completed. The call itself has no suspension point.
\<close>

theorem C8_connectToServer_composition:
  "mDevice this = Some sock \<longrightarrow>
     connectToServer respond this openMode
       = Inr (this\<lparr>mDevice := Some (QLocalSocket_connectToServer respond None
                 (case openMode of None \<Rightarrow> ReadWrite | Some m \<Rightarrow> m) sock)\<rparr>,
              waitForConnected
                (this\<lparr>mDevice := Some (QLocalSocket_connectToServer respond None
                   (case openMode of None \<Rightarrow> ReadWrite | Some m \<Rightarrow> m) sock)\<rparr>) None)
     \<and> connectToServer_name respond this name openMode
       = Inr (this\<lparr>mDevice := Some (QLocalSocket_connectToServer respond (Some name)
                 (case openMode of None \<Rightarrow> ReadWrite | Some m \<Rightarrow> m) sock)\<rparr>,
              waitForConnected
                (this\<lparr>mDevice := Some (QLocalSocket_connectToServer respond (Some name)
                   (case openMode of None \<Rightarrow> ReadWrite | Some m \<Rightarrow> m) sock)\<rparr>) None)
     \<and> (\<forall>this' op. connectToServer respond this openMode = Inr (this', op)
                     \<or> connectToServer_name respond this name openMode = Inr (this', op) \<longrightarrow>
          (\<exists>n. mDevice this' = Some (respond (sock\<lparr>requests := requests sock @
                  [ConnectRequest n (case openMode of None \<Rightarrow> ReadWrite | Some m \<Rightarrow> m)]\<rparr>)))
          \<and> mObj op = mDevice this'
          \<and> trace op = [] \<and> mConn op = None \<and> \<not> mTimerActive op \<and> \<not> mCompleted op)"
  by (auto simp: connectToServer_def connectToServer_name_def Let_def waitForConnected_def
      WaitForConnectedOperation_def WaitOperationBase_init_def QLocalSocket_connectToServer_def)

theorem C8_connectToServer_composition_witness:
  "connectToServer (\<lambda>s. s\<lparr>state := ConnectingState\<rparr>)
       \<lparr>mDevice = Some \<lparr>state = UnconnectedState, buffer = [], requests = []\<rparr>\<rparr> None
     = Inr (\<lparr>mDevice = Some \<lparr>state = ConnectingState, buffer = [],
                               requests = [ConnectRequest None ReadWrite]\<rparr>\<rparr>,
            waitForConnected
              \<lparr>mDevice = Some \<lparr>state = ConnectingState, buffer = [],
                                requests = [ConnectRequest None ReadWrite]\<rparr>\<rparr> None)
   \<and> connectToServer_name (\<lambda>s. s\<lparr>state := ConnectingState\<rparr>)
       \<lparr>mDevice = Some \<lparr>state = UnconnectedState, buffer = [], requests = []\<rparr>\<rparr> ''srv'' (Some 1)
     = Inr (\<lparr>mDevice = Some \<lparr>state = ConnectingState, buffer = [],
                               requests = [ConnectRequest (Some ''srv'') 1]\<rparr>\<rparr>,
            waitForConnected
              \<lparr>mDevice = Some \<lparr>state = ConnectingState, buffer = [],
                                requests = [ConnectRequest (Some ''srv'') 1]\<rparr>\<rparr> None)"
proof -
  let ?sock = "\<lparr>state = UnconnectedState, buffer = [], requests = []\<rparr>"
  let ?respond = "\<lambda>s. s\<lparr>state := ConnectingState\<rparr>"
  have live: "mDevice \<lparr>mDevice = Some ?sock\<rparr> = Some ?sock"
    by simp
  have r1: "\<lparr>mDevice = Some ?sock\<rparr>
      \<lparr>mDevice := Some (QLocalSocket_connectToServer ?respond None
                          (case None of None \<Rightarrow> ReadWrite | Some m \<Rightarrow> m) ?sock)\<rparr>
    = \<lparr>mDevice = Some \<lparr>state = ConnectingState, buffer = [],
                       requests = [ConnectRequest None ReadWrite]\<rparr>\<rparr>"
    by (simp add: QLocalSocket_connectToServer_def)
  have r2: "\<lparr>mDevice = Some ?sock\<rparr>
      \<lparr>mDevice := Some (QLocalSocket_connectToServer ?respond (Some ''srv'')
                          (case Some 1 of None \<Rightarrow> ReadWrite | Some m \<Rightarrow> m) ?sock)\<rparr>
    = \<lparr>mDevice = Some \<lparr>state = ConnectingState, buffer = [],
                       requests = [ConnectRequest (Some ''srv'') 1]\<rparr>\<rparr>"
    by (simp add: QLocalSocket_connectToServer_def)
  note A = C8_connectToServer_composition
    [of "\<lparr>mDevice = Some ?sock\<rparr>" ?sock ?respond None, unfolded r1]
  note B = C8_connectToServer_composition
    [of "\<lparr>mDevice = Some ?sock\<rparr>" ?sock ?respond "Some 1" "''srv''", unfolded r2]
  note a = A [THEN mp, OF live, THEN conjunct1]
  note b = B [THEN mp, OF live, THEN conjunct2, THEN conjunct1]
  from a b show ?thesis by (rule conjI)
qed

text \<open>
  C9: the overloads taking \<open>std::chrono::milliseconds\<close> return the very awaitable the
  \<open>int\<close> overloads return for \<open>static_cast<int>(timeout.count())\<close>. Its timeout is the
  count wrapped into 32 bits; a count outside the range of \<open>int\<close> is not rejected and
  gives a timeout different from the count.
\<close>

theorem C9_chrono_overloads:
  "waitForConnected_chrono this d = waitForConnected this (Some (static_cast_int d))
   \<and> waitForDisconnected_chrono this d = waitForDisconnected this (Some (static_cast_int d))
   \<and> sint (mTimeout (waitForConnected_chrono this d)) = signed_take_bit 31 (sint d)
   \<and> sint (mTimeout (waitForDisconnected_chrono this d)) = signed_take_bit 31 (sint d)
   \<and> (sint d < - (2 ^ 31) \<or> 2 ^ 31 \<le> sint d \<longrightarrow>
        sint (mTimeout (waitForConnected_chrono this d)) \<noteq> sint d
        \<and> sint (mTimeout (waitForDisconnected_chrono this d)) \<noteq> sint d)"
proof -
  have t: "mTimeout (waitForConnected_chrono this d) = static_cast_int d"
    "mTimeout (waitForDisconnected_chrono this d) = static_cast_int d"
    by (simp_all add: waitForConnected_chrono_def waitForDisconnected_chrono_def
        waitForConnected_def waitForDisconnected_def WaitForConnectedOperation_def
        WaitForDisconnectedOperation_def WaitOperationBase_init_def)
  have s: "sint (static_cast_int d) = signed_take_bit 31 (sint d)"
    by (simp add: static_cast_int_def signed_scast_eq)
  have r: "sint (static_cast_int d) \<noteq> sint d" if "sint d < - (2 ^ 31) \<or> 2 ^ 31 \<le> sint d"
    using that sint_ge [of "static_cast_int d"] sint_lt [of "static_cast_int d"] by auto
  show ?thesis
    using t s r by (simp add: waitForConnected_chrono_def waitForDisconnected_chrono_def)
qed

theorem C9_chrono_overloads_witness:
  "2 ^ 31 \<le> sint (4294967301 :: int64)
   \<and> waitForConnected_chrono \<lparr>mDevice = None\<rparr> 4294967301
       = waitForConnected \<lparr>mDevice = None\<rparr> (Some 5)
   \<and> waitForDisconnected_chrono \<lparr>mDevice = None\<rparr> 4294967301
       = waitForDisconnected \<lparr>mDevice = None\<rparr> (Some 5)
   \<and> sint (mTimeout (waitForConnected_chrono \<lparr>mDevice = None\<rparr> 4294967301)) \<noteq> sint (4294967301 :: int64)
   \<and> sint (mTimeout (waitForConnected_chrono \<lparr>mDevice = None\<rparr> 2147483648)) = - 2147483648"
proof -
  have c: "static_cast_int 4294967301 = 5"
    by (simp add: static_cast_int_def)
  have h: "2 ^ 31 \<le> sint (4294967301 :: int64)"
    by simp
  have v: "signed_take_bit 31 (sint (2147483648 :: int64)) = - 2147483648"
    by simp
  note A = C9_chrono_overloads [of "\<lparr>mDevice = None\<rparr>" 4294967301, unfolded c]
  note B = C9_chrono_overloads [of "\<lparr>mDevice = None\<rparr>" 2147483648, unfolded v]
  show ?thesis
    using h A B by blast
qed

text \<open>
  C10: whatever the arguments, what either overload of \<open>connectToServer\<close> returns is
  \<open>waitForConnected()\<close>, called without a timeout, on the wrapper whose socket has taken
  the connect request (server name when given, open mode or its default): the awaitable
  watches that socket, its timeout is 30000 milliseconds, and awaiting it either finds it
  ready or subscribes to the state changes of the socket and starts the timer with 30000.
  Neither overload has a parameter for the timeout. On a live socket both overloads do
  return an awaitable.
\<close>

theorem C10_connectToServer_timeout:
  "(\<forall>this' op. connectToServer respond this openMode = Inr (this', op) \<longrightarrow>
       (\<exists>sock. mDevice this = Some sock
          \<and> mDevice this' = Some (respond (sock\<lparr>requests := requests sock @
                [ConnectRequest None (case openMode of None \<Rightarrow> ReadWrite | Some m \<Rightarrow> m)]\<rparr>)))
       \<and> op = waitForConnected this' None
       \<and> op = WaitForConnectedOperation (mDevice this') (Some 30000)
       \<and> mObj op = mDevice this'
       \<and> mTimeout op = 30000 \<and> sint (mTimeout op) = 30000
       \<and> co_await_WaitForConnected op
           = (if WaitForConnected_await_ready op then (False, op)
              else (True, op\<lparr>mConn := Some SIG_stateChanged, mTimerActive := True,
                             trace := [Subscribe SIG_stateChanged, StartTimer 30000]\<rparr>)))
   \<and> (\<forall>this' op. connectToServer_name respond this name openMode = Inr (this', op) \<longrightarrow>
       (\<exists>sock. mDevice this = Some sock
          \<and> mDevice this' = Some (respond (sock\<lparr>requests := requests sock @
                [ConnectRequest (Some name) (case openMode of None \<Rightarrow> ReadWrite | Some m \<Rightarrow> m)]\<rparr>)))
       \<and> op = waitForConnected this' None
       \<and> op = WaitForConnectedOperation (mDevice this') (Some 30000)
       \<and> mObj op = mDevice this'
       \<and> mTimeout op = 30000 \<and> sint (mTimeout op) = 30000
       \<and> co_await_WaitForConnected op
           = (if WaitForConnected_await_ready op then (False, op)
              else (True, op\<lparr>mConn := Some SIG_stateChanged, mTimerActive := True,
                             trace := [Subscribe SIG_stateChanged, StartTimer 30000]\<rparr>)))
   \<and> (mDevice this \<noteq> None \<longrightarrow>
       (\<exists>this' op. connectToServer respond this openMode = Inr (this', op))
       \<and> (\<exists>this' op. connectToServer_name respond this name openMode = Inr (this', op)))"
proof -
  have aw: "co_await_WaitForConnected (WaitForConnectedOperation (Some s) (Some 30000))
      = (if WaitForConnected_await_ready (WaitForConnectedOperation (Some s) (Some 30000))
         then (False, WaitForConnectedOperation (Some s) (Some 30000))
         else (True, (WaitForConnectedOperation (Some s) (Some 30000))
                \<lparr>mConn := Some SIG_stateChanged, mTimerActive := True,
                 trace := [Subscribe SIG_stateChanged, StartTimer 30000]\<rparr>))" for s
    by (simp add: co_await_WaitForConnected_def WaitForConnected_await_suspend_def
        startTimeoutTimer_def QObject_connect_def subscribed_trace_def Let_def
        WaitForConnectedOperation_def WaitOperationBase_init_def)
  have fields: "mObj (WaitForConnectedOperation (Some s) (Some 30000)) = Some s
      \<and> mTimeout (WaitForConnectedOperation (Some s) (Some 30000)) = 30000
      \<and> sint (mTimeout (WaitForConnectedOperation (Some s) (Some 30000))) = 30000" for s
    by (simp add: WaitForConnectedOperation_def WaitOperationBase_init_def)
  have wfc: "waitForConnected t None = WaitForConnectedOperation (mDevice t) (Some 30000)" for t
    by (simp add: waitForConnected_def)
  have one: "(\<exists>sock. mDevice this = Some sock
          \<and> mDevice this' = Some (respond (sock\<lparr>requests := requests sock @ [ConnectRequest nm md]\<rparr>)))
       \<and> op = waitForConnected this' None
       \<and> op = WaitForConnectedOperation (mDevice this') (Some 30000)
       \<and> mObj op = mDevice this'
       \<and> mTimeout op = 30000 \<and> sint (mTimeout op) = 30000
       \<and> co_await_WaitForConnected op
           = (if WaitForConnected_await_ready op then (False, op)
              else (True, op\<lparr>mConn := Some SIG_stateChanged, mTimerActive := True,
                             trace := [Subscribe SIG_stateChanged, StartTimer 30000]\<rparr>))"
    if r: "mDevice this = Some sock"
      "this' = this\<lparr>mDevice := Some (QLocalSocket_connectToServer respond nm md sock)\<rparr>"
      "op = waitForConnected this' None"
    for this' op sock nm md
  proof -
    let ?s = "respond (sock\<lparr>requests := requests sock @ [ConnectRequest nm md]\<rparr>)"
    have d: "mDevice this' = Some ?s"
      using r(2) by (simp add: QLocalSocket_connectToServer_def)
    have o: "op = WaitForConnectedOperation (Some ?s) (Some 30000)"
      using r(3) d by (simp add: wfc)
    show ?thesis
      using r(1) r(3) d o fields [of ?s] aw [of ?s] by simp
  qed
  have c1: "\<exists>sock. mDevice this = Some sock
      \<and> this' = this\<lparr>mDevice := Some (QLocalSocket_connectToServer respond None
            (case openMode of None \<Rightarrow> ReadWrite | Some m \<Rightarrow> m) sock)\<rparr>
      \<and> op = waitForConnected this' None"
    if "connectToServer respond this openMode = Inr (this', op)" for this' op
    using that by (cases "mDevice this") (auto simp: connectToServer_def Let_def)
  have c2: "\<exists>sock. mDevice this = Some sock
      \<and> this' = this\<lparr>mDevice := Some (QLocalSocket_connectToServer respond (Some name)
            (case openMode of None \<Rightarrow> ReadWrite | Some m \<Rightarrow> m) sock)\<rparr>
      \<and> op = waitForConnected this' None"
    if "connectToServer_name respond this name openMode = Inr (this', op)" for this' op
    using that by (cases "mDevice this") (auto simp: connectToServer_name_def Let_def)
  have ex: "(\<exists>this' op. connectToServer respond this openMode = Inr (this', op))
       \<and> (\<exists>this' op. connectToServer_name respond this name openMode = Inr (this', op))"
    if "mDevice this \<noteq> None"
    using that by (cases "mDevice this") (simp_all add: connectToServer_def connectToServer_name_def Let_def)
  show ?thesis
  proof (intro conjI allI impI)
    fix this' op
    assume "connectToServer respond this openMode = Inr (this', op)"
    from c1 [OF this] obtain sock where s: "mDevice this = Some sock"
      "this' = this\<lparr>mDevice := Some (QLocalSocket_connectToServer respond None
            (case openMode of None \<Rightarrow> ReadWrite | Some m \<Rightarrow> m) sock)\<rparr>"
      "op = waitForConnected this' None"
      by blast
    note o = one [OF s]
    show "\<exists>sock. mDevice this = Some sock
          \<and> mDevice this' = Some (respond (sock\<lparr>requests := requests sock @
                [ConnectRequest None (case openMode of None \<Rightarrow> ReadWrite | Some m \<Rightarrow> m)]\<rparr>))"
      "op = waitForConnected this' None"
      "op = WaitForConnectedOperation (mDevice this') (Some 30000)"
      "mObj op = mDevice this'" "mTimeout op = 30000" "sint (mTimeout op) = 30000"
      "co_await_WaitForConnected op
           = (if WaitForConnected_await_ready op then (False, op)
              else (True, op\<lparr>mConn := Some SIG_stateChanged, mTimerActive := True,
                             trace := [Subscribe SIG_stateChanged, StartTimer 30000]\<rparr>))"
      using o by blast+
  next
    fix this' op
    assume "connectToServer_name respond this name openMode = Inr (this', op)"
    from c2 [OF this] obtain sock where s: "mDevice this = Some sock"
      "this' = this\<lparr>mDevice := Some (QLocalSocket_connectToServer respond (Some name)
            (case openMode of None \<Rightarrow> ReadWrite | Some m \<Rightarrow> m) sock)\<rparr>"
      "op = waitForConnected this' None"
      by blast
    note o = one [OF s]
    show "\<exists>sock. mDevice this = Some sock
          \<and> mDevice this' = Some (respond (sock\<lparr>requests := requests sock @
                [ConnectRequest (Some name) (case openMode of None \<Rightarrow> ReadWrite | Some m \<Rightarrow> m)]\<rparr>))"
      "op = waitForConnected this' None"
      "op = WaitForConnectedOperation (mDevice this') (Some 30000)"
      "mObj op = mDevice this'" "mTimeout op = 30000" "sint (mTimeout op) = 30000"
      "co_await_WaitForConnected op
           = (if WaitForConnected_await_ready op then (False, op)
              else (True, op\<lparr>mConn := Some SIG_stateChanged, mTimerActive := True,
                             trace := [Subscribe SIG_stateChanged, StartTimer 30000]\<rparr>))"
      using o by blast+
  next
    assume "mDevice this \<noteq> None"
    from ex [OF this]
    show "\<exists>this' op. connectToServer respond this openMode = Inr (this', op)"
      "\<exists>this' op. connectToServer_name respond this name openMode = Inr (this', op)"
      by blast+
  qed
qed

theorem C10_connectToServer_timeout_witness:
  "(\<exists>this' op. connectToServer (\<lambda>s. s\<lparr>state := ConnectingState\<rparr>)
       \<lparr>mDevice = Some \<lparr>state = UnconnectedState, buffer = [], requests = []\<rparr>\<rparr> (Some 1)
       = Inr (this', op)
     \<and> op = waitForConnected this' None
     \<and> mObj op = mDevice this'
     \<and> mTimeout op = 30000
     \<and> co_await_WaitForConnected op
         = (if WaitForConnected_await_ready op then (False, op)
            else (True, op\<lparr>mConn := Some SIG_stateChanged, mTimerActive := True,
                           trace := [Subscribe SIG_stateChanged, StartTimer 30000]\<rparr>)))
   \<and> (\<exists>this' op. connectToServer_name (\<lambda>s. s\<lparr>state := ConnectingState\<rparr>)
       \<lparr>mDevice = Some \<lparr>state = UnconnectedState, buffer = [], requests = []\<rparr>\<rparr> ''srv'' None
       = Inr (this', op)
     \<and> op = waitForConnected this' None
     \<and> mObj op = mDevice this'
     \<and> mTimeout op = 30000
     \<and> co_await_WaitForConnected op
         = (if WaitForConnected_await_ready op then (False, op)
            else (True, op\<lparr>mConn := Some SIG_stateChanged, mTimerActive := True,
                           trace := [Subscribe SIG_stateChanged, StartTimer 30000]\<rparr>)))"
proof -
  have live: "mDevice \<lparr>mDevice = Some \<lparr>state = UnconnectedState, buffer = [], requests = []\<rparr>\<rparr> \<noteq> None"
    by simp
  show ?thesis
    using live C10_connectToServer_timeout
      [of "\<lambda>s. s\<lparr>state := ConnectingState\<rparr>"
        "\<lparr>mDevice = Some \<lparr>state = UnconnectedState, buffer = [], requests = []\<rparr>\<rparr>"
        "Some 1" "''srv''"]
      C10_connectToServer_timeout
      [of "\<lambda>s. s\<lparr>state := ConnectingState\<rparr>"
        "\<lparr>mDevice = Some \<lparr>state = UnconnectedState, buffer = [], requests = []\<rparr>\<rparr>"
        None "''srv''"]
    by blast
qed

end
